theory Spec2Isabelle
  imports Main
begin

section \<open>Strings of the runtime\<close>

text \<open>
  A JavaScript string is modelled as a \<^typ>\<open>string\<close>: a list of code units below 256, read
  as the first 256 Unicode code points. On that range the white space that
  \<^verbatim>\<open>String.prototype.trim\<close> strips and that \<^verbatim>\<open>\s\<close> matches is TAB, LF, VT, FF, CR,
  SPACE and NO-BREAK SPACE, and \<^verbatim>\<open>toLowerCase\<close> moves A-Z and the capital letters of
  U+00C0..U+00DE (all but the multiplication sign U+00D7) up by 32.
\<close>

definition is_space :: "char \<Rightarrow> bool" where
  "is_space c = (c \<in> set [CHR 0x09, CHR 0x0A, CHR 0x0B, CHR 0x0C, CHR 0x0D, CHR 0x20, CHR 0xA0])"

definition trim :: "string \<Rightarrow> string" where
  "trim s = rev (dropWhile is_space (rev (dropWhile is_space s)))"

definition lower_char :: "char \<Rightarrow> char" where
  "lower_char c =
     (let n = (of_char c :: nat)
      in if (65 \<le> n \<and> n \<le> 90) \<or> (192 \<le> n \<and> n \<le> 214) \<or> (216 \<le> n \<and> n \<le> 222)
         then char_of (n + 32) else c)"

definition toLowerCase :: "string \<Rightarrow> string" where
  "toLowerCase s = map lower_char s"

fun startsWith :: "string \<Rightarrow> string \<Rightarrow> bool" where
  "startsWith s [] = True"
| "startsWith [] (c # t) = False"
| "startsWith (d # s) (c # t) = (d = c \<and> startsWith s t)"

text \<open>\<^verbatim>\<open>s.includes(t)\<close>: \<open>t\<close> occurs in \<open>s\<close> as a contiguous run.\<close>

fun includes_str :: "string \<Rightarrow> string \<Rightarrow> bool" where
  "includes_str [] t = (t = [])"
| "includes_str (c # s) t = (startsWith (c # s) t \<or> includes_str s t)"

section \<open>The email pattern\<close>

text \<open>
  The pattern literal of the handler is \<^verbatim>\<open>/^[^\s@]+@[^\s@]+\.[^\s@]+$/\<close>: a sequence of
  atoms, each taken once or one-or-more times, anchored at both ends. \<open>matches\<close> is the
  backtracking matcher for such sequences; the empty pattern stands for the end anchor.
\<close>

datatype atom = Lit char | NotSpaceNorAt

datatype quant = Once | OneOrMore

fun accepts :: "atom \<Rightarrow> char \<Rightarrow> bool" where
  "accepts (Lit d) c = (c = d)"
| "accepts NotSpaceNorAt c = (\<not> is_space c \<and> c \<noteq> CHR ''@'')"

fun matches :: "(atom \<times> quant) list \<Rightarrow> string \<Rightarrow> bool" where
  "matches [] s = (s = [])"
| "matches ((a, q) # p) [] = False"
| "matches ((a, Once) # p) (c # t) = (accepts a c \<and> matches p t)"
| "matches ((a, OneOrMore) # p) (c # t) =
     (accepts a c \<and> (matches ((a, OneOrMore) # p) t \<or> matches p t))"

definition emailRegex :: "(atom \<times> quant) list" where
  "emailRegex =
     [(NotSpaceNorAt, OneOrMore), (Lit (CHR ''@''), Once), (NotSpaceNorAt, OneOrMore),
      (Lit (CHR ''.''), Once), (NotSpaceNorAt, OneOrMore)]"

section \<open>Values, exceptions, responses\<close>

text \<open>
  What \<^verbatim>\<open>JSON.parse\<close> returns. An object keeps its members as written in the body; a
  later member overrides an earlier one of the same name. A value that may be
  \<^verbatim>\<open>undefined\<close> is a \<open>json option\<close>. The numeric value of a number plays no role in
  the handler; only integers are represented.
\<close>

datatype json =
    JNull
  | JBool bool
  | JNum int
  | JStr string
  | JArr "json list"
  | JObj "(string \<times> json) list"

text \<open>
  Thrown values: the \<^verbatim>\<open>TypeError\<close> of a call on a value without that method, the
  \<^verbatim>\<open>SyntaxError\<close> of \<^verbatim>\<open>JSON.parse\<close>, and the error object of the database driver with its
  optional \<^verbatim>\<open>code\<close> and \<^verbatim>\<open>constraint\<close> fields.
\<close>

datatype exn = TypeError | SyntaxError | DbError "string option" "string option"

fun err_code :: "exn \<Rightarrow> string option" where
  "err_code (DbError c k) = c"
| "err_code TypeError = None"
| "err_code SyntaxError = None"

fun err_constraint :: "exn \<Rightarrow> string option" where
  "err_constraint (DbError c k) = k"
| "err_constraint TypeError = None"
| "err_constraint SyntaxError = None"

text \<open>
  A response as the handler writes it: the status code of \<^verbatim>\<open>writeHead\<close>, the headers set
  so far, and the value handed to \<^verbatim>\<open>JSON.stringify\<close> for the body (\<open>None\<close> for an empty
  body).
\<close>

record response =
  statusCode :: nat
  headers :: "(string \<times> string) list"
  payload :: "json option"

definition cors_headers :: "(string \<times> string) list" where
  "cors_headers =
     [(''Access-Control-Allow-Origin'', ''*''),
      (''Access-Control-Allow-Methods'', ''GET, POST, OPTIONS''),
      (''Access-Control-Allow-Headers'', ''Content-Type'')]"

definition json_response :: "nat \<Rightarrow> json \<Rightarrow> response" where
  "json_response code v =
     \<lparr>statusCode = code,
      headers = cors_headers @ [(''Content-Type'', ''application/json'')],
      payload = Some v\<rparr>"

definition error_body :: "string \<Rightarrow> json" where
  "error_body msg = JObj [(''status'', JStr ''error''), (''message'', JStr msg)]"

section \<open>The store\<close>

text \<open>
  The database is an external collaborator; the program only sends it statements through
  the driver's \<^verbatim>\<open>sql\<close> tag. The model keeps the one table the statements name, the
  indexes, and the list of statements issued so far. A statement first meets \<open>faults\<close>, the
  store's failures that the model does not derive from the schema (connectivity, a
  constraint added by hand, a type the model does not know); a fault throws and changes
  nothing. Otherwise the statement runs with PostgreSQL's meaning as far as relations,
  columns, the declared length limits and the not-null flags go. A statement that fails
  leaves the data as it was; sequence values lost to a failed insert are not modelled, and
  neither are the values of timestamps (the probe's answer is the text \<open>now\<close>) nor the
  index that comes with the primary key.
\<close>

datatype sqlval = SqlNull | SqlInt int | SqlText string | SqlTimestamp

record column =
  column_name :: string
  data_type :: string
  is_nullable :: bool
  max_length :: "nat option"

record table =
  columns :: "column list"
  rows :: "(string \<times> sqlval) list list"
  serial :: nat

datatype stmt =
    SelectNow
  | SelectColumns
  | AlterAddCreatedAt
  | CreateTable
  | CreateIndex string string
  | InsertContact string string "string option" string

record store =
  contacts :: "table option"
  indexes :: "(string \<times> string) list"
  issued :: "stmt list"

type_synonym faults = "stmt \<Rightarrow> exn option"

type_synonym result_row = "(string \<times> json) list"

definition db_error :: "string \<Rightarrow> exn" where
  "db_error c = DbError (Some c) None"

definition created_at_column :: column where
  "created_at_column =
     \<lparr>column_name = ''created_at'', data_type = ''timestamp with time zone'',
      is_nullable = True, max_length = None\<rparr>"

definition contacts_columns :: "column list" where
  "contacts_columns =
     [\<lparr>column_name = ''id'', data_type = ''integer'', is_nullable = False, max_length = None\<rparr>,
      \<lparr>column_name = ''name'', data_type = ''character varying'', is_nullable = False,
        max_length = Some 100\<rparr>,
      \<lparr>column_name = ''email'', data_type = ''character varying'', is_nullable = False,
        max_length = Some 100\<rparr>,
      \<lparr>column_name = ''phone'', data_type = ''character varying'', is_nullable = True,
        max_length = Some 20\<rparr>,
      \<lparr>column_name = ''message'', data_type = ''text'', is_nullable = False, max_length = None\<rparr>,
      created_at_column]"

definition column_names :: "table \<Rightarrow> string list" where
  "column_names t = map column_name (columns t)"

definition column_row :: "column \<Rightarrow> result_row" where
  "column_row c =
     [(''column_name'', JStr (column_name c)),
      (''data_type'', JStr (data_type c)),
      (''is_nullable'', JStr (if is_nullable c then ''YES'' else ''NO''))]"

text \<open>The value an insert gives a column: the four supplied ones, the two defaults, else null.\<close>

definition insert_value ::
  "nat \<Rightarrow> string \<Rightarrow> string \<Rightarrow> string option \<Rightarrow> string \<Rightarrow> string \<Rightarrow> sqlval" where
  "insert_value new_id name email phone message c =
     (if c = ''id'' then SqlInt (int new_id)
      else if c = ''name'' then SqlText name
      else if c = ''email'' then SqlText email
      else if c = ''phone'' then (case phone of None \<Rightarrow> SqlNull | Some p \<Rightarrow> SqlText p)
      else if c = ''message'' then SqlText message
      else if c = ''created_at'' then SqlTimestamp
      else SqlNull)"

definition too_long :: "column \<Rightarrow> sqlval \<Rightarrow> bool" where
  "too_long c v =
     (case (max_length c, v) of (Some n, SqlText t) \<Rightarrow> n < length t | _ \<Rightarrow> False)"

definition null_refused :: "column \<Rightarrow> sqlval \<Rightarrow> bool" where
  "null_refused c v = (v = SqlNull \<and> \<not> is_nullable c)"

definition exec :: "store \<Rightarrow> stmt \<Rightarrow> exn + (result_row list \<times> store)" where
  "exec s q =
     (case q of
        SelectNow \<Rightarrow> Inr ([[(''current_time'', JStr ''now'')]], s)
      | SelectColumns \<Rightarrow>
          Inr (case contacts s of None \<Rightarrow> [] | Some t \<Rightarrow> map column_row (columns t), s)
      | AlterAddCreatedAt \<Rightarrow>
          (case contacts s of
             None \<Rightarrow> Inl (db_error ''42P01'')
           | Some t \<Rightarrow>
               if ''created_at'' \<in> set (column_names t) then Inl (db_error ''42701'')
               else Inr ([], s\<lparr>contacts := Some (t\<lparr>columns := columns t @ [created_at_column],
                      rows := map (\<lambda>r. r @ [(''created_at'', SqlTimestamp)]) (rows t)\<rparr>)\<rparr>))
      | CreateTable \<Rightarrow>
          (case contacts s of
             Some t \<Rightarrow> Inr ([], s)
           | None \<Rightarrow>
               Inr ([], s\<lparr>contacts := Some \<lparr>columns = contacts_columns, rows = [], serial = 0\<rparr>\<rparr>))
      | CreateIndex ix col \<Rightarrow>
          (case contacts s of
             None \<Rightarrow> Inl (db_error ''42P01'')
           | Some t \<Rightarrow>
               if col \<notin> set (column_names t) then Inl (db_error ''42703'')
               else if ix \<in> set (map fst (indexes s)) then Inr ([], s)
               else Inr ([], s\<lparr>indexes := indexes s @ [(ix, col)]\<rparr>))
      | InsertContact name email phone message \<Rightarrow>
          (case contacts s of
             None \<Rightarrow> Inl (db_error ''42P01'')
           | Some t \<Rightarrow>
               let new_id = Suc (serial t);
                   val = insert_value new_id name email phone message
               in if \<not> set [''name'', ''email'', ''phone'', ''message'', ''id''] \<subseteq> set (column_names t)
                  then Inl (db_error ''42703'')
                  else if list_ex (\<lambda>c. too_long c (val (column_name c))) (columns t)
                  then Inl (db_error ''22001'')
                  else if list_ex (\<lambda>c. null_refused c (val (column_name c))) (columns t)
                  then Inl (db_error ''23502'')
                  else Inr ([[(''id'', JNum (int new_id))]],
                         s\<lparr>contacts := Some (t\<lparr>rows := rows t @ [map (\<lambda>c. (c, val c)) (column_names t)],
                           serial := new_id\<rparr>)\<rparr>)))"

text \<open>The driver's tag: the statement is recorded, then it faults or runs.\<close>

definition sql :: "faults \<Rightarrow> store \<Rightarrow> stmt \<Rightarrow> (exn + result_row list) \<times> store" where
  "sql flt s q =
     (let s1 = s\<lparr>issued := issued s @ [q]\<rparr>
      in case flt q of
           Some e \<Rightarrow> (Inl e, s1)
         | None \<Rightarrow> (case exec s1 q of Inl e \<Rightarrow> (Inl e, s1) | Inr (rs, s2) \<Rightarrow> (Inr rs, s2)))"

section \<open>Connection probe\<close>

text \<open>
  \<^verbatim>\<open>testConnection\<close> sends the probe and only logs what comes back; its own
  \<^verbatim>\<open>catch\<close> takes every error, also the one of reading an empty result.
\<close>

definition testConnection :: "faults \<Rightarrow> store \<Rightarrow> exn option \<times> store" where
  "testConnection flt s =
     (case sql flt s SelectNow of
        (Inr result, s1) \<Rightarrow> (None, s1)
      | (Inl error, s1) \<Rightarrow> (None, s1))"

section \<open>Schema initializer\<close>

text \<open>
  \<^verbatim>\<open>checkTableStructure\<close> catches its own failure and then returns the empty list.
\<close>

definition checkTableStructure :: "faults \<Rightarrow> store \<Rightarrow> result_row list \<times> store" where
  "checkTableStructure flt s =
     (case sql flt s SelectColumns of
        (Inr tableInfo, s1) \<Rightarrow> (tableInfo, s1)
      | (Inl error, s1) \<Rightarrow> ([], s1))"

definition is_created_at :: "result_row \<Rightarrow> bool" where
  "is_created_at col = (map_of col ''column_name'' = Some (JStr ''created_at''))"

text \<open>
  The body of the \<^verbatim>\<open>try\<close> block of \<^verbatim>\<open>createTable\<close>. The first component is the exception
  that leaves the block, if any; each index statement sits in a \<^verbatim>\<open>try\<close> of its own,
  so its outcome is dropped. Logging is not modelled.
\<close>

definition createTable_try :: "faults \<Rightarrow> store \<Rightarrow> exn option \<times> store" where
  "createTable_try flt s =
     (let (existingColumns, s1) = checkTableStructure flt s;
          hasCreatedAt = list_ex is_created_at existingColumns;
          (r, s2) = (if \<not> hasCreatedAt \<and> length existingColumns > 0
                     then sql flt s1 AlterAddCreatedAt
                     else sql flt s1 CreateTable)
      in case r of
           Inl error \<Rightarrow> (Some error, s2)
         | Inr done \<Rightarrow>
             let (r3, s3) = sql flt s2 (CreateIndex ''idx_contacts_email'' ''email'');
                 (r4, s4) = sql flt s3 (CreateIndex ''idx_contacts_created_at'' ''created_at'');
                 (finalStructure, s5) = checkTableStructure flt s4
             in (None, s5))"

text \<open>The \<^verbatim>\<open>catch\<close> of \<^verbatim>\<open>createTable\<close> logs the error and returns normally.\<close>

definition createTable :: "faults \<Rightarrow> store \<Rightarrow> exn option \<times> store" where
  "createTable flt s =
     (case createTable_try flt s of
        (Some error, s1) \<Rightarrow> (None, s1)
      | (None, s1) \<Rightarrow> (None, s1))"

section \<open>Contact repository\<close>

definition success_body :: "json option \<Rightarrow> json" where
  "success_body i =
     JObj ([(''status'', JStr ''success''),
            (''message'', JStr ''Thank you! Your message has been sent successfully.'')]
           @ (case i of None \<Rightarrow> [] | Some v \<Rightarrow> [(''id'', v)]))"

text \<open>
  The rest of the \<^verbatim>\<open>try\<close> block of \<^verbatim>\<open>saveContact\<close> once the awaited insert has
  given its outcome: a thrown error leaves the block, and \<^verbatim>\<open>result[0].id\<close> throws on an
  empty result.
\<close>

definition saveContact_try :: "exn + result_row list \<Rightarrow> exn + json" where
  "saveContact_try outcome =
     (case outcome of
        Inl error \<Rightarrow> Inl error
      | Inr result \<Rightarrow>
          (case result of
             [] \<Rightarrow> Inl TypeError
           | r # rest \<Rightarrow> Inr (success_body (map_of r ''id''))))"

text \<open>\<^verbatim>\<open>error.constraint?.includes(t)\<close> as a condition.\<close>

definition constraint_includes :: "exn \<Rightarrow> string \<Rightarrow> bool" where
  "constraint_includes error t =
     (case err_constraint error of None \<Rightarrow> False | Some k \<Rightarrow> includes_str k t)"

definition saveContact_catch :: "exn \<Rightarrow> exn + json" where
  "saveContact_catch error =
     (if err_code error = Some ''23505'' then
        (if constraint_includes error ''email'' then
           Inr (error_body
             ''This email address has already been used. Please use a different email.'')
         else if constraint_includes error ''phone'' then
           Inr (error_body
             ''This phone number has already been used. Please use a different number.'')
         else
           Inr (error_body
             ''Something went wrong while saving your contact. Please try again later.''))
      else
        Inr (error_body
          ''Something went wrong while saving your contact. Please try again later.''))"

text \<open>The \<^verbatim>\<open>try\<close> block followed by the \<^verbatim>\<open>catch\<close>, for an outcome of the insert.\<close>

definition saveContact_settle :: "exn + result_row list \<Rightarrow> exn + json" where
  "saveContact_settle outcome =
     (case saveContact_try outcome of
        Inr r \<Rightarrow> Inr r
      | Inl error \<Rightarrow> saveContact_catch error)"

text \<open>
  \<^verbatim>\<open>saveContact\<close>: the insert is sent with \<^verbatim>\<open>phone || null\<close>, which turns the empty
  string into null. The result is \<open>Inl\<close> if an exception leaves the function.
\<close>

definition saveContact ::
  "faults \<Rightarrow> store \<Rightarrow> string \<Rightarrow> string \<Rightarrow> string option \<Rightarrow> string \<Rightarrow> (exn + json) \<times> store" where
  "saveContact flt s name email phone message =
     (case sql flt s (InsertContact name email (if phone = Some [] then None else phone) message) of
        (outcome, s1) \<Rightarrow> (saveContact_settle outcome, s1))"

section \<open>Request handler\<close>

text \<open>
  \<^verbatim>\<open>const { name, email, phone, message } = data\<close>: null cannot be destructured; an
  object gives its members; any other parsed value has none of the four properties.
\<close>

definition own_property :: "(string \<times> json) list \<Rightarrow> string \<Rightarrow> json option" where
  "own_property kvs k = map_of (rev kvs) k"

definition destructure ::
  "json \<Rightarrow> exn + (json option \<times> json option \<times> json option \<times> json option)" where
  "destructure data =
     (case data of
        JNull \<Rightarrow> Inl TypeError
      | JObj kvs \<Rightarrow>
          Inr (own_property kvs ''name'', own_property kvs ''email'', own_property kvs ''phone'', own_property kvs ''message'')
      | _ \<Rightarrow> Inr (None, None, None, None))"

text \<open>
  \<^verbatim>\<open>v?.trim()\<close> is undefined on undefined and null and throws on any other value that is
  not a string; \<^verbatim>\<open>v.trim()\<close> throws on everything but a string.
\<close>

fun optional_trim :: "json option \<Rightarrow> exn + string option" where
  "optional_trim None = Inr None"
| "optional_trim (Some JNull) = Inr None"
| "optional_trim (Some (JStr s)) = Inr (Some (trim s))"
| "optional_trim (Some v) = Inl TypeError"

fun call_trim :: "json option \<Rightarrow> exn + string" where
  "call_trim (Some (JStr s)) = Inr (trim s)"
| "call_trim v = Inl TypeError"

text \<open>\<^verbatim>\<open>!v\<close> for \<open>v\<close> undefined or a string.\<close>

definition falsy :: "string option \<Rightarrow> bool" where
  "falsy v = (v = None \<or> v = Some [])"

text \<open>\<^verbatim>\<open>!name?.trim() || !email?.trim() || !message?.trim()\<close>, left to right.\<close>

definition missing_required :: "json option \<Rightarrow> json option \<Rightarrow> json option \<Rightarrow> exn + bool" where
  "missing_required name email message =
     (case optional_trim name of
        Inl e \<Rightarrow> Inl e
      | Inr n \<Rightarrow>
          if falsy n then Inr True
          else (case optional_trim email of
                  Inl e \<Rightarrow> Inl e
                | Inr m \<Rightarrow>
                    if falsy m then Inr True
                    else (case optional_trim message of
                            Inl e \<Rightarrow> Inl e
                          | Inr g \<Rightarrow> Inr (falsy g))))"

text \<open>
  \<^verbatim>\<open>emailRegex.test(email)\<close> on the value as received, not trimmed. A value that is not
  a string would be converted first; none gets here, see \<open>missing_required_strings\<close>.
\<close>

definition emailRegex_test :: "json option \<Rightarrow> bool" where
  "emailRegex_test v = (case v of Some (JStr s) \<Rightarrow> matches emailRegex s | _ \<Rightarrow> False)"

text \<open>
  The call of the repository with its arguments evaluated in order, and the 200 response
  that forwards its result.
\<close>

definition save_and_respond ::
  "faults \<Rightarrow> store \<Rightarrow> json option \<Rightarrow> json option \<Rightarrow> json option \<Rightarrow> json option
     \<Rightarrow> (exn + response) \<times> store" where
  "save_and_respond flt s name email phone message =
     (case call_trim name of
        Inl e \<Rightarrow> (Inl e, s)
      | Inr n \<Rightarrow>
     (case call_trim email of
        Inl e \<Rightarrow> (Inl e, s)
      | Inr m \<Rightarrow>
     (case optional_trim phone of
        Inl e \<Rightarrow> (Inl e, s)
      | Inr p \<Rightarrow>
     (case call_trim message of
        Inl e \<Rightarrow> (Inl e, s)
      | Inr g \<Rightarrow>
     (case saveContact flt s n (toLowerCase m) (if falsy p then None else p) g of
        (Inl e, s1) \<Rightarrow> (Inl e, s1)
      | (Inr response, s1) \<Rightarrow> (Inr (json_response 200 response), s1))))))"

text \<open>
  The \<^verbatim>\<open>try\<close> block of the \<^verbatim>\<open>end\<close> callback. \<^verbatim>\<open>JSON.parse\<close> belongs to the runtime and is
  a parameter: \<open>None\<close> is its \<^verbatim>\<open>SyntaxError\<close>.
\<close>

definition on_end_try ::
  "(string \<Rightarrow> json option) \<Rightarrow> faults \<Rightarrow> store \<Rightarrow> string \<Rightarrow> (exn + response) \<times> store" where
  "on_end_try JSON_parse flt s body =
     (if trim body = [] then
        (Inr (json_response 400 (error_body ''No data received. Please try again.'')), s)
      else
        (case JSON_parse body of
           None \<Rightarrow> (Inl SyntaxError, s)
         | Some data \<Rightarrow>
             (case destructure data of
                Inl e \<Rightarrow> (Inl e, s)
              | Inr (name, email, phone, message) \<Rightarrow>
                  (case missing_required name email message of
                     Inl e \<Rightarrow> (Inl e, s)
                   | Inr missing \<Rightarrow>
                       if missing then
                         (Inr (json_response 400
                            (error_body ''Name, email, and message are required fields.'')), s)
                       else if \<not> emailRegex_test email then
                         (Inr (json_response 400
                            (error_body ''Please enter a valid email address.'')), s)
                       else save_and_respond flt s name email phone message))))"

text \<open>The \<^verbatim>\<open>catch\<close> of the callback answers 500.\<close>

definition on_end ::
  "(string \<Rightarrow> json option) \<Rightarrow> faults \<Rightarrow> store \<Rightarrow> string \<Rightarrow> response \<times> store" where
  "on_end JSON_parse flt s body =
     (case on_end_try JSON_parse flt s body of
        (Inr r, s1) \<Rightarrow> (r, s1)
      | (Inl error, s1) \<Rightarrow>
          (json_response 500 (error_body ''Server error. Please try again later.''), s1))"

text \<open>
  A request with the chunks of its body in order of arrival. The static routes hand over
  to \<^verbatim>\<open>serveStaticFile\<close>; the file system is outside the model, so such a route is
  recorded with the path it joins to the parent directory and with its content type
  (for an image, the one its extension selects).
\<close>

record request =
  req_method :: string
  url :: string
  chunks :: "string list"

datatype content_type = Fixed string | ByExtension

datatype reaction = Reply response | ServeStaticFile string content_type

definition requestHandler ::
  "(string \<Rightarrow> json option) \<Rightarrow> faults \<Rightarrow> store \<Rightarrow> request \<Rightarrow> reaction \<times> store" where
  "requestHandler JSON_parse flt s req =
     (if req_method req = ''OPTIONS'' then
        (Reply \<lparr>statusCode = 200, headers = cors_headers, payload = None\<rparr>, s)
      else if req_method req = ''GET'' \<and> url req = ''/'' then
        (ServeStaticFile ''contact.html'' (Fixed ''text/html''), s)
      else if req_method req = ''GET'' \<and> startsWith (url req) ''/css/'' then
        (ServeStaticFile (url req) (Fixed ''text/css''), s)
      else if req_method req = ''GET'' \<and> startsWith (url req) ''/js/'' then
        (ServeStaticFile (url req) (Fixed ''application/javascript''), s)
      else if req_method req = ''GET'' \<and> startsWith (url req) ''/images/'' then
        (ServeStaticFile (url req) ByExtension, s)
      else if req_method req = ''POST'' \<and> url req = ''/submit-contact'' then
        (case on_end JSON_parse flt s (concat (chunks req)) of (r, s1) \<Rightarrow> (Reply r, s1))
      else
        (Reply (json_response 404 (error_body ''Page not found'')), s))"

section \<open>Listening\<close>

text \<open>
  \<^verbatim>\<open>process.env.PORT || 3000\<close>: an environment value is a string, and the empty string is
  falsy. \<^verbatim>\<open>PORT + 1\<close> adds to a number and appends to a string.
\<close>

datatype port = PortNumber nat | PortString string

definition PORT :: "string option \<Rightarrow> port" where
  "PORT env_port =
     (case env_port of
        None \<Rightarrow> PortNumber 3000
      | Some v \<Rightarrow> if v = [] then PortNumber 3000 else PortString v)"

fun plus_one :: "port \<Rightarrow> port" where
  "plus_one (PortNumber n) = PortNumber (n + 1)"
| "plus_one (PortString v) = PortString (v @ ''1'')"

text \<open>
  The outcomes of the successive \<^verbatim>\<open>listen\<close> calls are given as a list. The one
  \<^verbatim>\<open>error\<close> handler stays registered: each address-in-use outcome makes it listen on
  \<^verbatim>\<open>PORT + 1\<close>, any other error exits with code 1.
\<close>

datatype listen_outcome = Listening | EADDRINUSE | OtherError

datatype server_action = Listen port | Exit nat

fun on_error :: "port \<Rightarrow> listen_outcome list \<Rightarrow> server_action list" where
  "on_error p [] = []"
| "on_error p (Listening # rs) = []"
| "on_error p (EADDRINUSE # rs) = Listen (plus_one p) # on_error p rs"
| "on_error p (OtherError # rs) = [Exit 1]"

definition listen_actions :: "port \<Rightarrow> listen_outcome list \<Rightarrow> server_action list" where
  "listen_actions p outcomes = Listen p # on_error p outcomes"

text \<open>
  \<^verbatim>\<open>startServer\<close>: the probe, the initializer, then the listener; an exception anywhere
  in it exits with code 1. The check of the connection string at load time and the
  shutdown hook are not modelled.
\<close>

definition startServer ::
  "faults \<Rightarrow> store \<Rightarrow> string option \<Rightarrow> listen_outcome list \<Rightarrow> store \<times> server_action list" where
  "startServer flt s env_port outcomes =
     (case testConnection flt s of
        (Some error, s1) \<Rightarrow> (s1, [Exit 1])
      | (None, s1) \<Rightarrow>
          (case createTable flt s1 of
             (Some error, s2) \<Rightarrow> (s2, [Exit 1])
           | (None, s2) \<Rightarrow> (s2, listen_actions (PORT env_port) outcomes)))"

section \<open>Vocabulary of the properties\<close>

text \<open>A run of one or more characters that are neither white space nor the at sign.\<close>

definition plain :: "string \<Rightarrow> bool" where
  "plain u = (u \<noteq> [] \<and> list_all (accepts NotSpaceNorAt) u)"

text \<open>
  The kinds of value a field of the payload can hold: missing, null or a blank string;
  a string with something in it; or a value that is neither null nor a string.
\<close>

definition absent_or_blank :: "json option \<Rightarrow> bool" where
  "absent_or_blank v =
     (case v of None \<Rightarrow> True | Some JNull \<Rightarrow> True | Some (JStr t) \<Rightarrow> trim t = [] | _ \<Rightarrow> False)"

definition nonblank_string :: "json option \<Rightarrow> bool" where
  "nonblank_string v = (case v of Some (JStr t) \<Rightarrow> trim t \<noteq> [] | _ \<Rightarrow> False)"

definition string_or_absent :: "json option \<Rightarrow> bool" where
  "string_or_absent v =
     (case v of None \<Rightarrow> True | Some JNull \<Rightarrow> True | Some (JStr t) \<Rightarrow> True | _ \<Rightarrow> False)"

definition not_a_string :: "json option \<Rightarrow> bool" where
  "not_a_string v =
     (case v of None \<Rightarrow> False | Some JNull \<Rightarrow> False | Some (JStr t) \<Rightarrow> False | _ \<Rightarrow> True)"

text \<open>
  The phone argument of the repository, \<^verbatim>\<open>phone?.trim() || null\<close>, for a phone that is
  missing, null or a string (any other value makes the call throw).
\<close>

definition phone_argument :: "json option \<Rightarrow> string option" where
  "phone_argument v =
     (case v of Some (JStr t) \<Rightarrow> (if trim t = [] then None else Some (trim t)) | _ \<Rightarrow> None)"

definition store_accepts :: "faults \<Rightarrow> store \<Rightarrow> stmt \<Rightarrow> bool" where
  "store_accepts flt s q = (case fst (sql flt s q) of Inr rs \<Rightarrow> True | Inl e \<Rightarrow> False)"

text \<open>The table and the indexes: the state of the schema and the data, without the log.\<close>

type_synonym schema = "table option \<times> (string \<times> string) list"

definition schema_state :: "store \<Rightarrow> schema" where
  "schema_state s = (contacts s, indexes s)"

definition once :: "string list \<Rightarrow> string list \<Rightarrow> bool" where
  "once names cs = list_all (\<lambda>c. count_list names c = 1) cs"

text \<open>
  The list of indexes holds an index of the given name on the given column, and no index of
  that name on any other column.
\<close>

definition named_on :: "(string \<times> string) list \<Rightarrow> string \<Rightarrow> string \<Rightarrow> bool" where
  "named_on ixs ix col = list_all (\<lambda>p. fst p \<noteq> ix \<or> snd p = col) ixs"

definition index_on :: "(string \<times> string) list \<Rightarrow> string \<Rightarrow> string \<Rightarrow> bool" where
  "index_on ixs ix col = ((ix, col) \<in> set ixs \<and> named_on ixs ix col)"

text \<open>
  The schema the initializer is meant to leave: one copy of each of the six columns, the
  index \<^verbatim>\<open>idx_contacts_email\<close> on the email column and the index
  \<^verbatim>\<open>idx_contacts_created_at\<close> on the timestamp column.
\<close>

definition has_expected_schema :: "store \<Rightarrow> bool" where
  "has_expected_schema s =
     (case contacts s of
        None \<Rightarrow> False
      | Some t \<Rightarrow>
          once (column_names t) [''id'', ''name'', ''email'', ''phone'', ''message'', ''created_at'']
          \<and> index_on (indexes s) ''idx_contacts_email'' ''email''
          \<and> index_on (indexes s) ''idx_contacts_created_at'' ''created_at'')"

text \<open>
  A store the initializer can complete. Either there is no table yet, and then neither index
  name is taken (an index statement skips when its name exists); or the table has each of
  the five columns of the first schema once and the timestamp column at most once, and an
  index that already bears one of the two names is on the column that name is for.
\<close>

definition absent_or_legacy :: "store \<Rightarrow> bool" where
  "absent_or_legacy s =
     (case contacts s of
        None \<Rightarrow>
          ''idx_contacts_email'' \<notin> set (map fst (indexes s))
          \<and> ''idx_contacts_created_at'' \<notin> set (map fst (indexes s))
      | Some t \<Rightarrow>
          once (column_names t) [''id'', ''name'', ''email'', ''phone'', ''message'']
          \<and> count_list (column_names t) ''created_at'' \<le> 1
          \<and> named_on (indexes s) ''idx_contacts_email'' ''email''
          \<and> named_on (indexes s) ''idx_contacts_created_at'' ''created_at'')"

definition no_duplicate_columns :: "store \<Rightarrow> bool" where
  "no_duplicate_columns s =
     (case contacts s of None \<Rightarrow> True | Some t \<Rightarrow> distinct (column_names t))"

definition distinct_columns :: "table option \<Rightarrow> bool" where
  "distinct_columns c = (case c of None \<Rightarrow> True | Some t \<Rightarrow> distinct (column_names t))"

definition no_faults :: faults where
  "no_faults q = None"

text \<open>
  The effect of one run of the initializer, written as a function of the schema alone; the
  lemma \<open>createTable_schema\<close> shows that \<open>createTable\<close> computes it. \<open>listed_columns\<close> is
  what the first query reports, \<open>ensure_table\<close> the table after the first statement
  (\<open>None\<close> when that statement throws), \<open>add_index\<close> one index statement.
\<close>

definition listed_columns :: "faults \<Rightarrow> table option \<Rightarrow> string list" where
  "listed_columns flt c =
     (if flt SelectColumns = None then (case c of None \<Rightarrow> [] | Some t \<Rightarrow> column_names t) else [])"

definition ensure_table :: "faults \<Rightarrow> table option \<Rightarrow> table option option" where
  "ensure_table flt c =
     (if ''created_at'' \<notin> set (listed_columns flt c) \<and> listed_columns flt c \<noteq> [] then
        (case (flt AlterAddCreatedAt, c) of
           (None, Some t) \<Rightarrow>
             Some (Some (t\<lparr>columns := columns t @ [created_at_column],
               rows := map (\<lambda>r. r @ [(''created_at'', SqlTimestamp)]) (rows t)\<rparr>))
         | _ \<Rightarrow> None)
      else
        (case flt CreateTable of
           Some e \<Rightarrow> None
         | None \<Rightarrow>
             Some (case c of
                     None \<Rightarrow> Some \<lparr>columns = contacts_columns, rows = [], serial = 0\<rparr>
                   | Some t \<Rightarrow> Some t)))"

definition add_index :: "faults \<Rightarrow> string \<Rightarrow> string \<Rightarrow> schema \<Rightarrow> schema" where
  "add_index flt ix col x =
     (case x of
        (None, ixs) \<Rightarrow> x
      | (Some t, ixs) \<Rightarrow>
          if flt (CreateIndex ix col) = None \<and> col \<in> set (column_names t)
             \<and> ix \<notin> set (map fst ixs)
          then (Some t, ixs @ [(ix, col)]) else x)"

definition init_schema :: "faults \<Rightarrow> schema \<Rightarrow> schema" where
  "init_schema flt x =
     (case ensure_table flt (fst x) of
        None \<Rightarrow> x
      | Some c \<Rightarrow>
          add_index flt ''idx_contacts_created_at'' ''created_at''
            (add_index flt ''idx_contacts_email'' ''email'' (c, snd x)))"

definition expected_schema :: "schema \<Rightarrow> bool" where
  "expected_schema x =
     (case fst x of
        None \<Rightarrow> False
      | Some t \<Rightarrow>
          once (column_names t) [''id'', ''name'', ''email'', ''phone'', ''message'', ''created_at'']
          \<and> index_on (snd x) ''idx_contacts_email'' ''email''
          \<and> index_on (snd x) ''idx_contacts_created_at'' ''created_at'')"

section \<open>Example inputs\<close>

definition empty_store :: store where
  "empty_store = \<lparr>contacts = None, indexes = [], issued = []\<rparr>"

text \<open>The store after the initializer has run on the empty one.\<close>

definition ready_store :: store where
  "ready_store = snd (createTable no_faults empty_store)"

text \<open>A table left by an older deployment with two columns only.\<close>

definition partial_store :: store where
  "partial_store =
     \<lparr>contacts = Some \<lparr>columns =
         [\<lparr>column_name = ''id'', data_type = ''integer'', is_nullable = False, max_length = None\<rparr>,
          \<lparr>column_name = ''name'', data_type = ''character varying'', is_nullable = False,
            max_length = Some 100\<rparr>],
         rows = [], serial = 0\<rparr>,
      indexes = [], issued = []\<rparr>"

text \<open>
  A table of the first schema, without the timestamp column, holding one row and already
  indexed on the email column.
\<close>

definition legacy_columns :: "column list" where
  "legacy_columns =
     [\<lparr>column_name = ''id'', data_type = ''integer'', is_nullable = False, max_length = None\<rparr>,
      \<lparr>column_name = ''name'', data_type = ''character varying'', is_nullable = False,
        max_length = Some 100\<rparr>,
      \<lparr>column_name = ''email'', data_type = ''character varying'', is_nullable = False,
        max_length = Some 100\<rparr>,
      \<lparr>column_name = ''phone'', data_type = ''character varying'', is_nullable = True,
        max_length = Some 20\<rparr>,
      \<lparr>column_name = ''message'', data_type = ''text'', is_nullable = False, max_length = None\<rparr>]"

definition legacy_row :: "(string \<times> sqlval) list" where
  "legacy_row =
     [(''id'', SqlInt 1), (''name'', SqlText ''Jo''), (''email'', SqlText ''jo@example.com''),
      (''phone'', SqlNull), (''message'', SqlText ''hi'')]"

definition legacy_store :: store where
  "legacy_store =
     \<lparr>contacts = Some \<lparr>columns = legacy_columns, rows = [legacy_row], serial = 1\<rparr>,
      indexes = [(''idx_contacts_email'', ''email'')], issued = []\<rparr>"

text \<open>The same table with the name of the email index taken by an index on another column.\<close>

definition misnamed_index_store :: store where
  "misnamed_index_store =
     \<lparr>contacts = Some \<lparr>columns = legacy_columns, rows = [legacy_row], serial = 1\<rparr>,
      indexes = [(''idx_contacts_email'', ''name'')], issued = []\<rparr>"

definition body_jo :: string where
  \<open>body_jo = ''{"name":"Jo","email":"JO@Example.com","message":" hi "}''\<close>

definition body_spaced_email :: string where
  \<open>body_spaced_email = ''{"name":"Jo","email":" jo@example.com","message":"hi"}''\<close>

definition body_numeric_phone :: string where
  \<open>body_numeric_phone = ''{"name":"Jo","email":"jo@example.com","phone":5551234,"message":"hi"}''\<close>

definition body_empty_object :: string where
  \<open>body_empty_object = ''{}''\<close>

definition body_numeric_name_blank_email :: string where
  \<open>body_numeric_name_blank_email = ''{"name":5,"email":"","message":"hi"}''\<close>

definition body_no_at :: string where
  \<open>body_no_at = ''{"name":"Jo","email":"jo.example.com","message":"hi"}''\<close>

definition body_no_dot :: string where
  \<open>body_no_dot = ''{"name":"Jo","email":"jo@example","message":"hi"}''\<close>

definition body_inner_space :: string where
  \<open>body_inner_space = ''{"name":"Jo","email":"jo @example.com","message":"hi"}''\<close>

definition body_blank_name_numeric_email :: string where
  \<open>body_blank_name_numeric_email = ''{"name":"","email":5,"message":"hi"}''\<close>

definition body_numeric_email :: string where
  \<open>body_numeric_email = ''{"name":"Jo","email":5,"message":"hi"}''\<close>

definition body_numeric_name_bad_email :: string where
  \<open>body_numeric_name_bad_email = ''{"name":5,"email":"bad"}''\<close>

definition body_bad_email_no_message :: string where
  \<open>body_bad_email_no_message = ''{"name":"Jo","email":"bad"}''\<close>

definition body_malformed :: string where
  \<open>body_malformed = ''{"name":''\<close>

text \<open>
  The parser on the bodies above: each complete object text gives its object, every other
  text is refused.
\<close>

definition parse_examples :: "string \<Rightarrow> json option" where
  "parse_examples b =
     (if b = body_jo then
        Some (JObj [(''name'', JStr ''Jo''), (''email'', JStr ''JO@Example.com''),
                    (''message'', JStr '' hi '')])
      else if b = body_spaced_email then
        Some (JObj [(''name'', JStr ''Jo''), (''email'', JStr '' jo@example.com''),
                    (''message'', JStr ''hi'')])
      else if b = body_numeric_phone then
        Some (JObj [(''name'', JStr ''Jo''), (''email'', JStr ''jo@example.com''),
                    (''phone'', JNum 5551234), (''message'', JStr ''hi'')])
      else if b = body_empty_object then
        Some (JObj [])
      else if b = body_numeric_name_blank_email then
        Some (JObj [(''name'', JNum 5), (''email'', JStr []), (''message'', JStr ''hi'')])
      else if b = body_no_at then
        Some (JObj [(''name'', JStr ''Jo''), (''email'', JStr ''jo.example.com''),
                    (''message'', JStr ''hi'')])
      else if b = body_no_dot then
        Some (JObj [(''name'', JStr ''Jo''), (''email'', JStr ''jo@example''),
                    (''message'', JStr ''hi'')])
      else if b = body_inner_space then
        Some (JObj [(''name'', JStr ''Jo''), (''email'', JStr ''jo @example.com''),
                    (''message'', JStr ''hi'')])
      else if b = body_blank_name_numeric_email then
        Some (JObj [(''name'', JStr []), (''email'', JNum 5), (''message'', JStr ''hi'')])
      else if b = body_numeric_email then
        Some (JObj [(''name'', JStr ''Jo''), (''email'', JNum 5), (''message'', JStr ''hi'')])
      else if b = body_numeric_name_bad_email then
        Some (JObj [(''name'', JNum 5), (''email'', JStr ''bad'')])
      else if b = body_bad_email_no_message then
        Some (JObj [(''name'', JStr ''Jo''), (''email'', JStr ''bad'')])
      else None)"

definition post :: "string list \<Rightarrow> request" where
  "post cs = \<lparr>req_method = ''POST'', url = ''/submit-contact'', chunks = cs\<rparr>"

text \<open>A store that answers every insert with a uniqueness violation on the email constraint.\<close>

definition duplicate_email :: faults where
  "duplicate_email q =
     (case q of
        InsertContact n e p m \<Rightarrow> Some (DbError (Some ''23505'') (Some ''contacts_email_key''))
      | _ \<Rightarrow> None)"

section \<open>The email pattern, characterised\<close>

lemma matches_once_iff:
  "matches ((a, Once) # p) s \<longleftrightarrow> (\<exists>c v. s = c # v \<and> accepts a c \<and> matches p v)"
  by (cases s) simp_all

lemma matches_more_iff:
  "matches ((a, OneOrMore) # p) s \<longleftrightarrow>
     (\<exists>u v. s = u @ v \<and> u \<noteq> [] \<and> list_all (accepts a) u \<and> matches p v)"
proof (induction s)
  case Nil
  then show ?case by simp
next
  case (Cons c t)
  show ?case
  proof
    assume "matches ((a, OneOrMore) # p) (c # t)"
    then have c: "accepts a c" and d: "matches ((a, OneOrMore) # p) t \<or> matches p t"
      by simp_all
    from d show "\<exists>u v. c # t = u @ v \<and> u \<noteq> [] \<and> list_all (accepts a) u \<and> matches p v"
    proof
      assume "matches ((a, OneOrMore) # p) t"
      with Cons.IH obtain u v where "t = u @ v" "list_all (accepts a) u" "matches p v"
        by blast
      with c have "c # t = (c # u) @ v \<and> c # u \<noteq> [] \<and> list_all (accepts a) (c # u) \<and> matches p v"
        by simp
      then show ?thesis by blast
    next
      assume "matches p t"
      with c have "c # t = [c] @ t \<and> [c] \<noteq> [] \<and> list_all (accepts a) [c] \<and> matches p t"
        by simp
      then show ?thesis by blast
    qed
  next
    assume "\<exists>u v. c # t = u @ v \<and> u \<noteq> [] \<and> list_all (accepts a) u \<and> matches p v"
    then obtain u v where uv: "c # t = u @ v" "u \<noteq> []" "list_all (accepts a) u" "matches p v"
      by blast
    then obtain u' where u: "u = c # u'" "t = u' @ v"
      by (cases u) auto
    show "matches ((a, OneOrMore) # p) (c # t)"
    proof (cases "u' = []")
      case True
      with u uv show ?thesis by simp
    next
      case False
      with u uv Cons.IH have "matches ((a, OneOrMore) # p) t" by auto
      with u uv show ?thesis by simp
    qed
  qed
qed

lemma matches_tail_iff: "matches [(NotSpaceNorAt, OneOrMore)] v \<longleftrightarrow> plain v"
proof -
  have "matches [(NotSpaceNorAt, OneOrMore)] v \<longleftrightarrow>
      (\<exists>u w. v = u @ w \<and> u \<noteq> [] \<and> list_all (accepts NotSpaceNorAt) u \<and> matches [] w)"
    by (rule matches_more_iff)
  also have "\<dots> \<longleftrightarrow> plain v"
    by (simp add: plain_def)
  finally show ?thesis .
qed

lemma matches_domain_iff:
  "matches [(NotSpaceNorAt, OneOrMore), (Lit (CHR ''.''), Once), (NotSpaceNorAt, OneOrMore)] v
     \<longleftrightarrow> (\<exists>B C. v = B @ CHR ''.'' # C \<and> plain B \<and> plain C)"
proof -
  have "matches [(NotSpaceNorAt, OneOrMore), (Lit (CHR ''.''), Once), (NotSpaceNorAt, OneOrMore)] v
      \<longleftrightarrow> (\<exists>B w. v = B @ w \<and> B \<noteq> [] \<and> list_all (accepts NotSpaceNorAt) B \<and>
            matches [(Lit (CHR ''.''), Once), (NotSpaceNorAt, OneOrMore)] w)"
    by (rule matches_more_iff)
  also have "\<dots> \<longleftrightarrow> (\<exists>B w. v = B @ w \<and> plain B \<and>
            (\<exists>c C. w = c # C \<and> accepts (Lit (CHR ''.'')) c \<and> plain C))"
    by (simp add: matches_once_iff matches_tail_iff plain_def)
  also have "\<dots> \<longleftrightarrow> (\<exists>B C. v = B @ CHR ''.'' # C \<and> plain B \<and> plain C)"
    by auto
  finally show ?thesis .
qed

lemma emailRegex_iff:
  "matches emailRegex s \<longleftrightarrow>
     (\<exists>A B C. s = A @ CHR ''@'' # B @ CHR ''.'' # C \<and> plain A \<and> plain B \<and> plain C)"
proof -
  have "matches emailRegex s \<longleftrightarrow>
      (\<exists>A w. s = A @ w \<and> A \<noteq> [] \<and> list_all (accepts NotSpaceNorAt) A \<and>
         matches [(Lit (CHR ''@''), Once), (NotSpaceNorAt, OneOrMore), (Lit (CHR ''.''), Once),
                  (NotSpaceNorAt, OneOrMore)] w)"
    unfolding emailRegex_def by (rule matches_more_iff)
  also have "\<dots> \<longleftrightarrow> (\<exists>A w. s = A @ w \<and> plain A \<and>
         (\<exists>c v. w = c # v \<and> accepts (Lit (CHR ''@'')) c \<and>
            (\<exists>B C. v = B @ CHR ''.'' # C \<and> plain B \<and> plain C)))"
    by (simp add: matches_once_iff matches_domain_iff plain_def)
  also have "\<dots> \<longleftrightarrow>
      (\<exists>A B C. s = A @ CHR ''@'' # B @ CHR ''.'' # C \<and> plain A \<and> plain B \<and> plain C)"
    by simp blast
  finally show ?thesis .
qed

lemma plain_chars: "plain u \<Longrightarrow> c \<in> set u \<Longrightarrow> \<not> is_space c \<and> c \<noteq> CHR ''@''"
  by (simp add: plain_def list_all_iff)

lemma not_space_at_dot: "\<not> is_space (CHR ''@'')" "\<not> is_space (CHR ''.'')"
  by (simp_all add: is_space_def)

lemma emailRegex_has_at: "matches emailRegex s \<Longrightarrow> CHR ''@'' \<in> set s"
  by (auto simp add: emailRegex_iff)

lemma emailRegex_no_space: "matches emailRegex s \<Longrightarrow> c \<in> set s \<Longrightarrow> \<not> is_space c"
  by (auto simp add: emailRegex_iff not_space_at_dot dest: plain_chars)

lemma emailRegex_dot_after_at:
  assumes "matches emailRegex s" and "s = u @ CHR ''@'' # v"
  shows "CHR ''.'' \<in> set v"
proof -
  from assms(1) obtain A B C where s: "s = A @ CHR ''@'' # B @ CHR ''.'' # C"
    and p: "plain A" "plain B" "plain C"
    by (auto simp add: emailRegex_iff)
  have "CHR ''@'' \<notin> set A" "CHR ''@'' \<notin> set (B @ CHR ''.'' # C)"
    using p by (auto dest: plain_chars)
  with s assms(2) have "v = B @ CHR ''.'' # C"
    by (metis append_Cons_eq_iff)
  then show ?thesis by simp
qed

lemma emailRegex_trim: "matches emailRegex s \<Longrightarrow> trim s = s"
proof -
  assume m: "matches emailRegex s"
  then have n: "\<forall>c \<in> set s. \<not> is_space c" by (blast dest: emailRegex_no_space)
  then have "dropWhile is_space s = s"
    by (cases s) simp_all
  moreover from n have "dropWhile is_space (rev s) = rev s"
    by (cases "rev s") (simp, metis dropWhile.simps(2) list.set_intros(1) set_rev)
  ultimately show ?thesis by (simp add: trim_def)
qed

section \<open>The request handler\<close>

lemma post_route:
  assumes "req_method req = ''POST''" and "url req = ''/submit-contact''"
  shows "requestHandler JSON_parse flt s req =
           (Reply (fst (on_end JSON_parse flt s (concat (chunks req)))),
            snd (on_end JSON_parse flt s (concat (chunks req))))"
  using assms by (simp add: requestHandler_def split: prod.split)

lemma field_kinds:
  "absent_or_blank v \<or> nonblank_string v \<or> not_a_string v"
  by (simp add: absent_or_blank_def nonblank_string_def not_a_string_def
      split: option.split json.split)

lemma optional_trim_absent_or_blank:
  "absent_or_blank v \<Longrightarrow> \<exists>t. optional_trim v = Inr t \<and> falsy t"
  by (cases v rule: optional_trim.cases) (simp_all add: absent_or_blank_def falsy_def)

lemma optional_trim_nonblank_string:
  "nonblank_string v \<Longrightarrow> \<exists>t. optional_trim v = Inr t \<and> \<not> falsy t"
  by (cases v rule: optional_trim.cases) (simp_all add: nonblank_string_def falsy_def)

lemma optional_trim_not_a_string:
  "not_a_string v \<Longrightarrow> optional_trim v = Inl TypeError"
  by (cases v rule: optional_trim.cases) (simp_all add: not_a_string_def)

lemma string_or_absent_iff:
  "string_or_absent v \<longleftrightarrow> absent_or_blank v \<or> nonblank_string v"
  by (auto simp add: absent_or_blank_def nonblank_string_def string_or_absent_def
      split: option.split json.split)

lemma missing_required_true:
  assumes "absent_or_blank name
         \<or> (string_or_absent name \<and> absent_or_blank email)
         \<or> (string_or_absent name \<and> string_or_absent email \<and> absent_or_blank message)"
  shows "missing_required name email message = Inr True"
  using assms
  by (auto simp add: missing_required_def string_or_absent_iff
      dest!: optional_trim_absent_or_blank optional_trim_nonblank_string)

lemma missing_required_throws:
  assumes "not_a_string name
         \<or> (nonblank_string name \<and> not_a_string email)
         \<or> (nonblank_string name \<and> nonblank_string email \<and> not_a_string message)"
  shows "missing_required name email message = Inl TypeError"
  using assms
  by (auto simp add: missing_required_def
      dest!: optional_trim_not_a_string optional_trim_nonblank_string)

lemma missing_required_false:
  assumes "nonblank_string name" and "nonblank_string email" and "nonblank_string message"
  shows "missing_required name email message = Inr False"
  using assms
  by (auto simp add: missing_required_def dest!: optional_trim_nonblank_string)

lemma missing_required_strings:
  assumes "missing_required name email message = Inr False"
  shows "nonblank_string name \<and> nonblank_string email \<and> nonblank_string message"
proof -
  have "\<not> absent_or_blank name" "\<not> not_a_string name"
    using assms missing_required_true [of name email message]
      missing_required_throws [of name email message] by auto
  then have n: "nonblank_string name" using field_kinds [of name] by blast
  have "\<not> absent_or_blank email" "\<not> not_a_string email"
    using assms n missing_required_true [of name email message]
      missing_required_throws [of name email message] by (auto simp add: string_or_absent_iff)
  then have e: "nonblank_string email" using field_kinds [of email] by blast
  have "\<not> absent_or_blank message" "\<not> not_a_string message"
    using assms n e missing_required_true [of name email message]
      missing_required_throws [of name email message] by (auto simp add: string_or_absent_iff)
  then have "nonblank_string message" using field_kinds [of message] by blast
  with n e show ?thesis by simp
qed

lemma on_end_try_object:
  assumes "trim body \<noteq> []" and "JSON_parse body = Some (JObj kvs)"
  shows "on_end_try JSON_parse flt s body =
     (case missing_required (own_property kvs ''name'') (own_property kvs ''email'')
             (own_property kvs ''message'') of
        Inl e \<Rightarrow> (Inl e, s)
      | Inr missing \<Rightarrow>
          if missing then
            (Inr (json_response 400
               (error_body ''Name, email, and message are required fields.'')), s)
          else if \<not> emailRegex_test (own_property kvs ''email'') then
            (Inr (json_response 400 (error_body ''Please enter a valid email address.'')), s)
          else save_and_respond flt s (own_property kvs ''name'') (own_property kvs ''email'')
                 (own_property kvs ''phone'') (own_property kvs ''message''))"
  using assms by (simp add: on_end_try_def destructure_def)

lemmas body_defs =
  body_jo_def body_spaced_email_def body_numeric_phone_def body_empty_object_def
  body_numeric_name_blank_email_def body_no_at_def body_blank_name_numeric_email_def
  body_numeric_email_def body_numeric_name_bad_email_def body_bad_email_no_message_def
  body_malformed_def body_no_dot_def body_inner_space_def

lemma on_end_required:
  assumes "trim body \<noteq> []" and "JSON_parse body = Some (JObj kvs)"
    and "missing_required (own_property kvs ''name'') (own_property kvs ''email'')
           (own_property kvs ''message'') = Inr True"
  shows "on_end JSON_parse flt s body =
     (json_response 400 (error_body ''Name, email, and message are required fields.''), s)"
  using assms by (simp add: on_end_def on_end_try_object)

lemma on_end_type_error:
  assumes "trim body \<noteq> []" and "JSON_parse body = Some (JObj kvs)"
    and "missing_required (own_property kvs ''name'') (own_property kvs ''email'')
           (own_property kvs ''message'') = Inl TypeError"
  shows "on_end JSON_parse flt s body =
     (json_response 500 (error_body ''Server error. Please try again later.''), s)"
  using assms by (simp add: on_end_def on_end_try_object)

lemma on_end_invalid_email:
  assumes "trim body \<noteq> []" and "JSON_parse body = Some (JObj kvs)"
    and "missing_required (own_property kvs ''name'') (own_property kvs ''email'')
           (own_property kvs ''message'') = Inr False"
    and "\<not> emailRegex_test (own_property kvs ''email'')"
  shows "on_end JSON_parse flt s body =
     (json_response 400 (error_body ''Please enter a valid email address.''), s)"
  using assms by (simp add: on_end_def on_end_try_object)

text \<open>
  Claim C6. A POST to \<^verbatim>\<open>/submit-contact\<close> whose buffered body is empty or only white space
  is answered 400 with the message "No data received. Please try again."; a body that is
  not blank and that the parser refuses is answered 500 with the generic server-error
  message. The store is not touched in either case.
\<close>

theorem blank_or_malformed_body:
  assumes "req_method req = ''POST''" and "url req = ''/submit-contact''"
  shows "(trim (concat (chunks req)) = [] \<longrightarrow>
            requestHandler JSON_parse flt s req =
              (Reply (json_response 400 (error_body ''No data received. Please try again.'')), s))
       \<and> (trim (concat (chunks req)) \<noteq> [] \<and> JSON_parse (concat (chunks req)) = None \<longrightarrow>
            requestHandler JSON_parse flt s req =
              (Reply (json_response 500 (error_body ''Server error. Please try again later.'')), s))"
  using assms by (simp add: post_route on_end_def on_end_try_def)

theorem blank_or_malformed_body_witness:
  "requestHandler parse_examples no_faults empty_store (post ['' '', [CHR 0x0A]]) =
     (Reply (json_response 400 (error_body ''No data received. Please try again.'')), empty_store)
   \<and> requestHandler parse_examples no_faults empty_store (post [body_malformed]) =
     (Reply (json_response 500 (error_body ''Server error. Please try again later.'')),
      empty_store)"
proof -
  have a: "trim (concat (chunks (post ['' '', [CHR 0x0A]]))) = []"
    by (simp add: post_def trim_def is_space_def)
  have b: "trim (concat (chunks (post [body_malformed]))) \<noteq> []
      \<and> parse_examples (concat (chunks (post [body_malformed]))) = None"
    by (simp add: post_def trim_def is_space_def parse_examples_def body_defs)
  have r: "req_method (post cs) = ''POST''" "url (post cs) = ''/submit-contact''" for cs
    by (simp_all add: post_def)
  show ?thesis
    using a b blank_or_malformed_body [OF r, of "['' '', [CHR 0x0A]]" parse_examples no_faults empty_store]
      blank_or_malformed_body [OF r, of "[body_malformed]" parse_examples no_faults empty_store]
    by blast
qed

text \<open>
  Claim C2, as amended. For a POST to \<^verbatim>\<open>/submit-contact\<close> whose body parses to an object:
  if one of name, email, message is missing, null or a blank string, and every field checked
  before it (in the order name, email, message) is missing, null or a string, then the
  response is 400 with the message "Name, email, and message are required fields." and
  the store is left as it was, so the repository is not called.
\<close>

theorem required_fields_rejected:
  assumes "req_method req = ''POST''" and "url req = ''/submit-contact''"
    and "trim (concat (chunks req)) \<noteq> []"
    and "JSON_parse (concat (chunks req)) = Some (JObj kvs)"
    and "absent_or_blank (own_property kvs ''name'')
       \<or> (string_or_absent (own_property kvs ''name'')
            \<and> absent_or_blank (own_property kvs ''email''))
       \<or> (string_or_absent (own_property kvs ''name'')
            \<and> string_or_absent (own_property kvs ''email'')
            \<and> absent_or_blank (own_property kvs ''message''))"
  shows "requestHandler JSON_parse flt s req =
     (Reply (json_response 400
        (error_body ''Name, email, and message are required fields.'')), s)"
proof -
  have "missing_required (own_property kvs ''name'') (own_property kvs ''email'')
          (own_property kvs ''message'') = Inr True"
    using assms(5) by (rule missing_required_true)
  with assms(3,4) have "on_end JSON_parse flt s (concat (chunks req)) =
      (json_response 400 (error_body ''Name, email, and message are required fields.''), s)"
    by (rule on_end_required)
  with assms(1,2) show ?thesis by (simp add: post_route)
qed

text \<open>The empty object, sent in two chunks, is such a payload.\<close>

theorem required_fields_rejected_witness:
  "requestHandler parse_examples duplicate_email empty_store (post [''{'', ''}'']) =
     (Reply (json_response 400
        (error_body ''Name, email, and message are required fields.'')), empty_store)"
  by (rule required_fields_rejected [where kvs = "[]"])
    (simp_all add: post_def parse_examples_def body_defs trim_def is_space_def
      own_property_def absent_or_blank_def)

text \<open>
  Without the condition on the earlier fields the claim fails: with a number for the name
  and a blank email the name check throws first and the response is 500.
\<close>

theorem required_fields_counterexample:
  "own_property [(''name'', JNum 5), (''email'', JStr []), (''message'', JStr ''hi'')] ''email''
     = Some (JStr [])
   \<and> trim [] = []
   \<and> parse_examples body_numeric_name_blank_email
     = Some (JObj [(''name'', JNum 5), (''email'', JStr []), (''message'', JStr ''hi'')])
   \<and> requestHandler parse_examples no_faults empty_store (post [body_numeric_name_blank_email]) =
     (Reply (json_response 500 (error_body ''Server error. Please try again later.'')),
      empty_store)"
proof -
  have p: "parse_examples body_numeric_name_blank_email
     = Some (JObj [(''name'', JNum 5), (''email'', JStr []), (''message'', JStr ''hi'')])"
    by (simp add: parse_examples_def body_defs)
  have t: "trim body_numeric_name_blank_email \<noteq> []"
    by (simp add: body_defs trim_def is_space_def)
  have "on_end parse_examples no_faults empty_store body_numeric_name_blank_email =
     (json_response 500 (error_body ''Server error. Please try again later.''), empty_store)"
    using t p by (rule on_end_type_error) (simp add: own_property_def missing_required_def)
  then show ?thesis
    using p by (simp add: post_route post_def own_property_def trim_def)
qed

text \<open>
  Claim C3. For a POST to \<^verbatim>\<open>/submit-contact\<close> whose name, email and message are strings
  that are not blank, if the email has no at sign, or has an at sign with no dot after it,
  or contains white space, then the response is 400 with the message
  "Please enter a valid email address." and the store is left as it was.
\<close>

theorem invalid_email_rejected:
  assumes "req_method req = ''POST''" and "url req = ''/submit-contact''"
    and "trim (concat (chunks req)) \<noteq> []"
    and "JSON_parse (concat (chunks req)) = Some (JObj kvs)"
    and "own_property kvs ''name'' = Some (JStr name)" and "trim name \<noteq> []"
    and "own_property kvs ''email'' = Some (JStr email)" and "trim email \<noteq> []"
    and "own_property kvs ''message'' = Some (JStr message)" and "trim message \<noteq> []"
    and "CHR ''@'' \<notin> set email
       \<or> (\<exists>u v. email = u @ CHR ''@'' # v \<and> CHR ''.'' \<notin> set v)
       \<or> list_ex is_space email"
  shows "requestHandler JSON_parse flt s req =
     (Reply (json_response 400 (error_body ''Please enter a valid email address.'')), s)"
proof -
  have "\<not> matches emailRegex email"
    using assms(11) emailRegex_has_at [of email] emailRegex_dot_after_at [of email]
      emailRegex_no_space [of email]
    by (auto simp add: list_ex_iff)
  then have bad: "\<not> emailRegex_test (own_property kvs ''email'')"
    using assms(7) by (simp add: emailRegex_test_def)
  have "missing_required (own_property kvs ''name'') (own_property kvs ''email'')
          (own_property kvs ''message'') = Inr False"
    using assms(5-10) by (intro missing_required_false) (simp_all add: nonblank_string_def)
  with assms(3,4) have "on_end JSON_parse flt s (concat (chunks req)) =
      (json_response 400 (error_body ''Please enter a valid email address.''), s)"
    using bad by (rule on_end_invalid_email)
  with assms(1,2) show ?thesis by (simp add: post_route)
qed

theorem invalid_email_rejected_witness:
  "requestHandler parse_examples no_faults empty_store (post [body_no_at]) =
     (Reply (json_response 400 (error_body ''Please enter a valid email address.'')),
      empty_store)
   \<and> requestHandler parse_examples no_faults empty_store (post [body_no_dot]) =
     (Reply (json_response 400 (error_body ''Please enter a valid email address.'')),
      empty_store)
   \<and> requestHandler parse_examples no_faults empty_store (post [body_inner_space]) =
     (Reply (json_response 400 (error_body ''Please enter a valid email address.'')),
      empty_store)"
proof (intro conjI)
  show "requestHandler parse_examples no_faults empty_store (post [body_no_at]) =
     (Reply (json_response 400 (error_body ''Please enter a valid email address.'')),
      empty_store)"
    by (rule invalid_email_rejected
        [where kvs = "[(''name'', JStr ''Jo''), (''email'', JStr ''jo.example.com''),
                       (''message'', JStr ''hi'')]"
           and name = "''Jo''" and email = "''jo.example.com''" and message = "''hi''"])
      (simp_all add: post_def parse_examples_def body_defs trim_def is_space_def own_property_def)
next
  have "''jo@example'' = ''jo'' @ CHR ''@'' # ''example'' \<and> CHR ''.'' \<notin> set ''example''"
    by simp
  then have h: "CHR ''@'' \<notin> set ''jo@example''
       \<or> (\<exists>u v. ''jo@example'' = u @ CHR ''@'' # v \<and> CHR ''.'' \<notin> set v)
       \<or> list_ex is_space ''jo@example''"
    by blast
  show "requestHandler parse_examples no_faults empty_store (post [body_no_dot]) =
     (Reply (json_response 400 (error_body ''Please enter a valid email address.'')),
      empty_store)"
    by (rule invalid_email_rejected
        [where kvs = "[(''name'', JStr ''Jo''), (''email'', JStr ''jo@example''),
                       (''message'', JStr ''hi'')]"
           and name = "''Jo''" and email = "''jo@example''" and message = "''hi''",
         OF _ _ _ _ _ _ _ _ _ _ h])
      (simp_all add: post_def parse_examples_def body_defs trim_def is_space_def own_property_def)
next
  show "requestHandler parse_examples no_faults empty_store (post [body_inner_space]) =
     (Reply (json_response 400 (error_body ''Please enter a valid email address.'')),
      empty_store)"
    by (rule invalid_email_rejected
        [where kvs = "[(''name'', JStr ''Jo''), (''email'', JStr ''jo @example.com''),
                       (''message'', JStr ''hi'')]"
           and name = "''Jo''" and email = "''jo @example.com''" and message = "''hi''"])
      (simp_all add: post_def parse_examples_def body_defs trim_def is_space_def own_property_def)
qed

text \<open>
  Claim C9, as amended. For a POST to \<^verbatim>\<open>/submit-contact\<close> whose body parses to an object:
  if the first of name, email, message (in that order) that is not a non-blank string
  holds a value that is neither null nor a string, then the call of \<^verbatim>\<open>trim\<close> on it
  throws and the response is 500 with the generic server-error message.
\<close>

theorem non_string_field_server_error:
  assumes "req_method req = ''POST''" and "url req = ''/submit-contact''"
    and "trim (concat (chunks req)) \<noteq> []"
    and "JSON_parse (concat (chunks req)) = Some (JObj kvs)"
    and "not_a_string (own_property kvs ''name'')
       \<or> (nonblank_string (own_property kvs ''name'')
            \<and> not_a_string (own_property kvs ''email''))
       \<or> (nonblank_string (own_property kvs ''name'')
            \<and> nonblank_string (own_property kvs ''email'')
            \<and> not_a_string (own_property kvs ''message''))"
  shows "requestHandler JSON_parse flt s req =
     (Reply (json_response 500 (error_body ''Server error. Please try again later.'')), s)"
proof -
  have "missing_required (own_property kvs ''name'') (own_property kvs ''email'')
          (own_property kvs ''message'') = Inl TypeError"
    using assms(5) by (rule missing_required_throws)
  with assms(3,4) have "on_end JSON_parse flt s (concat (chunks req)) =
      (json_response 500 (error_body ''Server error. Please try again later.''), s)"
    by (rule on_end_type_error)
  with assms(1,2) show ?thesis by (simp add: post_route)
qed

theorem non_string_field_server_error_witness:
  "requestHandler parse_examples no_faults empty_store (post [body_numeric_email]) =
     (Reply (json_response 500 (error_body ''Server error. Please try again later.'')),
      empty_store)
   \<and> requestHandler parse_examples no_faults empty_store (post [body_numeric_name_bad_email]) =
     (Reply (json_response 500 (error_body ''Server error. Please try again later.'')),
      empty_store)"
proof (intro conjI)
  show "requestHandler parse_examples no_faults empty_store (post [body_numeric_email]) =
     (Reply (json_response 500 (error_body ''Server error. Please try again later.'')),
      empty_store)"
    by (rule non_string_field_server_error
        [where kvs = "[(''name'', JStr ''Jo''), (''email'', JNum 5), (''message'', JStr ''hi'')]"])
      (simp_all add: post_def parse_examples_def body_defs trim_def is_space_def own_property_def
        not_a_string_def nonblank_string_def)
next
  show "requestHandler parse_examples no_faults empty_store (post [body_numeric_name_bad_email]) =
     (Reply (json_response 500 (error_body ''Server error. Please try again later.'')),
      empty_store)"
    by (rule non_string_field_server_error
        [where kvs = "[(''name'', JNum 5), (''email'', JStr ''bad'')]"])
      (simp_all add: post_def parse_examples_def body_defs trim_def is_space_def own_property_def
        not_a_string_def)
qed

text \<open>
  A non-string value behind a blank field is never looked at: with a blank name and a
  number for the email the response is the 400 of the required-fields check.
\<close>

theorem non_string_field_counterexample:
  "parse_examples body_blank_name_numeric_email
     = Some (JObj [(''name'', JStr []), (''email'', JNum 5), (''message'', JStr ''hi'')])
   \<and> own_property [(''name'', JStr []), (''email'', JNum 5), (''message'', JStr ''hi'')] ''email''
     = Some (JNum 5)
   \<and> requestHandler parse_examples no_faults empty_store (post [body_blank_name_numeric_email]) =
     (Reply (json_response 400
        (error_body ''Name, email, and message are required fields.'')), empty_store)"
proof -
  have p: "parse_examples body_blank_name_numeric_email
     = Some (JObj [(''name'', JStr []), (''email'', JNum 5), (''message'', JStr ''hi'')])"
    by (simp add: parse_examples_def body_defs)
  have t: "trim body_blank_name_numeric_email \<noteq> []"
    by (simp add: body_defs trim_def is_space_def)
  have "on_end parse_examples no_faults empty_store body_blank_name_numeric_email =
     (json_response 400 (error_body ''Name, email, and message are required fields.''),
      empty_store)"
    using t p
    by (rule on_end_required) (simp add: own_property_def missing_required_def trim_def falsy_def)
  then show ?thesis
    using p by (simp add: post_route post_def own_property_def)
qed

text \<open>
  Claim C10, as amended. For a POST to \<^verbatim>\<open>/submit-contact\<close> whose body parses to an
  object in which name, email or message is missing, null or blank and whose email does not
  pass the pattern: the response is never the invalid-email message; it is the 400 with
  "Name, email, and message are required fields." whenever every field checked before the
  first missing or blank one is missing, null or a string.
\<close>

theorem required_check_before_email_check:
  assumes "req_method req = ''POST''" and "url req = ''/submit-contact''"
    and "trim (concat (chunks req)) \<noteq> []"
    and "JSON_parse (concat (chunks req)) = Some (JObj kvs)"
    and "absent_or_blank (own_property kvs ''name'')
       \<or> absent_or_blank (own_property kvs ''email'')
       \<or> absent_or_blank (own_property kvs ''message'')"
    and "\<not> emailRegex_test (own_property kvs ''email'')"
  shows "fst (requestHandler JSON_parse flt s req) \<noteq>
           Reply (json_response 400 (error_body ''Please enter a valid email address.''))
       \<and> (absent_or_blank (own_property kvs ''name'')
            \<or> (string_or_absent (own_property kvs ''name'')
                 \<and> absent_or_blank (own_property kvs ''email''))
            \<or> (string_or_absent (own_property kvs ''name'')
                 \<and> string_or_absent (own_property kvs ''email'')
                 \<and> absent_or_blank (own_property kvs ''message'')) \<longrightarrow>
          requestHandler JSON_parse flt s req =
            (Reply (json_response 400
               (error_body ''Name, email, and message are required fields.'')), s))"
proof -
  let ?n = "own_property kvs ''name''" and ?e = "own_property kvs ''email''"
    and ?m = "own_property kvs ''message''"
  have not_false: "missing_required ?n ?e ?m \<noteq> Inr False"
  proof
    assume "missing_required ?n ?e ?m = Inr False"
    then have "nonblank_string ?n \<and> nonblank_string ?e \<and> nonblank_string ?m"
      by (rule missing_required_strings)
    with assms(5) show False
      by (auto simp add: absent_or_blank_def nonblank_string_def split: option.splits json.splits)
  qed
  have first: "fst (on_end JSON_parse flt s (concat (chunks req))) \<noteq>
      json_response 400 (error_body ''Please enter a valid email address.'')"
    using not_false assms(3,4)
    by (simp add: on_end_def on_end_try_object json_response_def error_body_def
        split: sum.split)
  have second: "on_end JSON_parse flt s (concat (chunks req)) =
      (json_response 400 (error_body ''Name, email, and message are required fields.''), s)"
    if "absent_or_blank ?n \<or> (string_or_absent ?n \<and> absent_or_blank ?e)
        \<or> (string_or_absent ?n \<and> string_or_absent ?e \<and> absent_or_blank ?m)"
    using assms(3,4) missing_required_true [OF that] by (rule on_end_required)
  show ?thesis
    using first second assms(1,2) by (simp add: post_route)
qed

theorem required_check_before_email_check_witness:
  "fst (requestHandler parse_examples no_faults empty_store (post [body_bad_email_no_message])) \<noteq>
     Reply (json_response 400 (error_body ''Please enter a valid email address.''))
   \<and> requestHandler parse_examples no_faults empty_store (post [body_bad_email_no_message]) =
     (Reply (json_response 400
        (error_body ''Name, email, and message are required fields.'')), empty_store)"
proof -
  let ?kvs = "[(''name'', JStr ''Jo''), (''email'', JStr ''bad'')]"
  have r: "req_method (post [body_bad_email_no_message]) = ''POST''"
    "url (post [body_bad_email_no_message]) = ''/submit-contact''"
    by (simp_all add: post_def)
  have t: "trim (concat (chunks (post [body_bad_email_no_message]))) \<noteq> []"
    by (simp add: post_def body_defs trim_def is_space_def)
  have p: "parse_examples (concat (chunks (post [body_bad_email_no_message]))) = Some (JObj ?kvs)"
    by (simp add: post_def parse_examples_def body_defs)
  have m: "absent_or_blank (own_property ?kvs ''name'')
       \<or> absent_or_blank (own_property ?kvs ''email'')
       \<or> absent_or_blank (own_property ?kvs ''message'')"
    by (simp add: own_property_def absent_or_blank_def)
  have e: "\<not> emailRegex_test (own_property ?kvs ''email'')"
    by (simp add: own_property_def emailRegex_test_def emailRegex_def is_space_def)
  have c: "string_or_absent (own_property ?kvs ''name'')
       \<and> string_or_absent (own_property ?kvs ''email'')
       \<and> absent_or_blank (own_property ?kvs ''message'')"
    by (simp add: own_property_def absent_or_blank_def string_or_absent_def)
  show ?thesis
    using required_check_before_email_check
      [where JSON_parse = parse_examples and req = "post [body_bad_email_no_message]"
         and kvs = ?kvs and flt = no_faults and s = empty_store, OF r t p m e] c
    by blast
qed

text \<open>
  With a number for the name, a missing message and an email that does not pass the
  pattern, the response is the 500 of the failed \<^verbatim>\<open>trim\<close> call, not the 400.
\<close>

theorem required_check_before_email_check_counterexample:
  "parse_examples body_numeric_name_bad_email
     = Some (JObj [(''name'', JNum 5), (''email'', JStr ''bad'')])
   \<and> own_property [(''name'', JNum 5), (''email'', JStr ''bad'')] ''message'' = None
   \<and> \<not> matches emailRegex ''bad''
   \<and> requestHandler parse_examples no_faults empty_store (post [body_numeric_name_bad_email]) =
     (Reply (json_response 500 (error_body ''Server error. Please try again later.'')),
      empty_store)"
proof -
  have p: "parse_examples body_numeric_name_bad_email
     = Some (JObj [(''name'', JNum 5), (''email'', JStr ''bad'')])"
    by (simp add: parse_examples_def body_defs)
  have t: "trim body_numeric_name_bad_email \<noteq> []"
    by (simp add: body_defs trim_def is_space_def)
  have "on_end parse_examples no_faults empty_store body_numeric_name_bad_email =
     (json_response 500 (error_body ''Server error. Please try again later.''), empty_store)"
    using t p by (rule on_end_type_error) (simp add: own_property_def missing_required_def)
  then show ?thesis
    using p by (simp add: post_route post_def own_property_def emailRegex_def is_space_def)
qed

section \<open>The repository\<close>

lemma saveContact_catch_returns:
  "\<exists>msg. saveContact_catch error = Inr (error_body msg)"
  by (cases "err_code error = Some ''23505''"; cases "constraint_includes error ''email''";
      cases "constraint_includes error ''phone''")
    (simp_all add: saveContact_catch_def, blast+)

lemma saveContact_settle_returns:
  "\<exists>r. saveContact_settle outcome = Inr (JObj r)
     \<and> (map_of r ''status'' = Some (JStr ''success'') \<or> map_of r ''status'' = Some (JStr ''error''))"
proof (cases "saveContact_try outcome")
  case (Inl error)
  obtain msg where "saveContact_catch error = Inr (error_body msg)"
    using saveContact_catch_returns by blast
  with Inl show ?thesis
    by (simp add: saveContact_settle_def error_body_def)
next
  case (Inr r)
  then obtain i where "r = success_body i"
    by (auto simp add: saveContact_try_def split: sum.splits list.splits)
  with Inr show ?thesis
    by (simp add: saveContact_settle_def success_body_def)
qed

text \<open>
  Claim C4. Whatever the insert gives back (rows, a uniqueness violation, any other thrown
  error, even an empty result), and so for every input and every store, \<^verbatim>\<open>saveContact\<close>
  returns an object whose status is "success" or "error"; no exception leaves it.
\<close>

theorem saveContact_never_throws:
  "(\<exists>r. saveContact_settle outcome = Inr (JObj r)
      \<and> (map_of r ''status'' = Some (JStr ''success'')
           \<or> map_of r ''status'' = Some (JStr ''error'')))
   \<and> (\<exists>r s1. saveContact flt s name email phone message = (Inr (JObj r), s1)
      \<and> (map_of r ''status'' = Some (JStr ''success'')
           \<or> map_of r ''status'' = Some (JStr ''error'')))"
proof
  show "\<exists>r. saveContact_settle outcome = Inr (JObj r)
      \<and> (map_of r ''status'' = Some (JStr ''success'')
           \<or> map_of r ''status'' = Some (JStr ''error''))"
    by (rule saveContact_settle_returns)
next
  obtain out s1 where q: "sql flt s (InsertContact name email
      (if phone = Some [] then None else phone) message) = (out, s1)"
    by (cases "sql flt s (InsertContact name email
      (if phone = Some [] then None else phone) message)")
  obtain r where "saveContact_settle out = Inr (JObj r)"
    "map_of r ''status'' = Some (JStr ''success'') \<or> map_of r ''status'' = Some (JStr ''error'')"
    using saveContact_settle_returns by blast
  with q show "\<exists>r s1. saveContact flt s name email phone message = (Inr (JObj r), s1)
      \<and> (map_of r ''status'' = Some (JStr ''success'')
           \<or> map_of r ''status'' = Some (JStr ''error''))"
    by (simp add: saveContact_def)
qed

theorem saveContact_never_throws_witness:
  "(\<exists>r. saveContact_settle (Inr []) = Inr (JObj r)
      \<and> (map_of r ''status'' = Some (JStr ''success'')
           \<or> map_of r ''status'' = Some (JStr ''error'')))
   \<and> (\<exists>r s1. saveContact duplicate_email empty_store ''Jo'' ''jo@example.com'' None ''hi''
         = (Inr (JObj r), s1)
      \<and> (map_of r ''status'' = Some (JStr ''success'')
           \<or> map_of r ''status'' = Some (JStr ''error'')))"
  by (rule saveContact_never_throws)

lemma phone_argument_trimmed:
  assumes "string_or_absent v"
  shows "\<exists>p. optional_trim v = Inr p \<and> (if falsy p then None else p) = phone_argument v"
  using assms
  by (cases v rule: optional_trim.cases)
    (simp_all add: string_or_absent_def phone_argument_def falsy_def)

lemma phone_argument_not_empty: "phone_argument v \<noteq> Some []"
  by (simp add: phone_argument_def split: option.split json.split)

lemma save_and_respond_strings:
  assumes "string_or_absent phone"
    and "sql flt s (InsertContact (trim name) (toLowerCase (trim email)) (phone_argument phone)
           (trim message)) = (outcome, s1)"
  shows "save_and_respond flt s (Some (JStr name)) (Some (JStr email)) phone (Some (JStr message)) =
     (case saveContact_settle outcome of
        Inl e \<Rightarrow> (Inl e, s1)
      | Inr r \<Rightarrow> (Inr (json_response 200 r), s1))"
proof -
  obtain p where p: "optional_trim phone = Inr p"
    "(if falsy p then None else p) = phone_argument phone"
    using phone_argument_trimmed [OF assms(1)] by blast
  have "saveContact flt s (trim name) (toLowerCase (trim email)) (phone_argument phone)
      (trim message) = (saveContact_settle outcome, s1)"
    using assms(2) by (simp add: saveContact_def phone_argument_not_empty)
  with p show ?thesis
    by (simp add: save_and_respond_def split: sum.split)
qed

lemma valid_submission_forwarded:
  assumes "req_method req = ''POST''" and "url req = ''/submit-contact''"
    and "trim (concat (chunks req)) \<noteq> []"
    and "JSON_parse (concat (chunks req)) = Some (JObj kvs)"
    and "own_property kvs ''name'' = Some (JStr name)" and "trim name \<noteq> []"
    and "own_property kvs ''email'' = Some (JStr email)" and "matches emailRegex email"
    and "own_property kvs ''message'' = Some (JStr message)" and "trim message \<noteq> []"
    and "string_or_absent (own_property kvs ''phone'')"
    and "sql flt s (InsertContact (trim name) (toLowerCase (trim email))
           (phone_argument (own_property kvs ''phone'')) (trim message)) = (outcome, s1)"
    and "saveContact_settle outcome = Inr r"
  shows "requestHandler JSON_parse flt s req = (Reply (json_response 200 r), s1)"
proof -
  have e: "trim email \<noteq> []"
    using assms(8) emailRegex_trim [of email] by (auto simp add: emailRegex_def)
  have "missing_required (own_property kvs ''name'') (own_property kvs ''email'')
          (own_property kvs ''message'') = Inr False"
    using assms(5-10) e by (intro missing_required_false) (simp_all add: nonblank_string_def)
  moreover have "emailRegex_test (own_property kvs ''email'')"
    using assms(7,8) by (simp add: emailRegex_test_def)
  moreover have "save_and_respond flt s (own_property kvs ''name'') (own_property kvs ''email'')
      (own_property kvs ''phone'') (own_property kvs ''message'') = (Inr (json_response 200 r), s1)"
    using save_and_respond_strings [OF assms(11,12)] assms(5,7,9,13) by simp
  ultimately have "on_end JSON_parse flt s (concat (chunks req)) = (json_response 200 r, s1)"
    using assms(3,4) by (simp add: on_end_def on_end_try_object)
  with assms(1,2) show ?thesis by (simp add: post_route)
qed

lemma map_of_tabulated:
  "k \<in> set cs \<Longrightarrow> map_of (map (\<lambda>c. (c, f c)) cs) k = Some (f k)"
  by (induction cs) auto

lemma sql_insert_accepted:
  assumes "store_accepts flt s (InsertContact n e p m)"
  shows "\<exists>t0. contacts s = Some t0
     \<and> set [''name'', ''email'', ''phone'', ''message'', ''id''] \<subseteq> set (column_names t0)
     \<and> sql flt s (InsertContact n e p m) =
         (Inr [[(''id'', JNum (int (Suc (serial t0))))]],
          s\<lparr>issued := issued s @ [InsertContact n e p m],
            contacts := Some (t0\<lparr>rows := rows t0 @
                [map (\<lambda>c. (c, insert_value (Suc (serial t0)) n e p m c)) (column_names t0)],
              serial := Suc (serial t0)\<rparr>)\<rparr>)"
  using assms
  by (auto simp add: store_accepts_def sql_def exec_def Let_def
      split: option.splits sum.splits if_splits)

lemma saveContact_settle_duplicate_email:
  assumes "includes_str k ''email''"
  shows "saveContact_settle (Inl (DbError (Some ''23505'') (Some k))) =
     Inr (error_body
       ''This email address has already been used. Please use a different email.'')"
  using assms
  by (simp add: saveContact_settle_def saveContact_try_def saveContact_catch_def
      constraint_includes_def)

text \<open>
  Claim C5. For a POST to \<^verbatim>\<open>/submit-contact\<close> that passes validation and whose insert
  fails with a uniqueness violation (code 23505) on a constraint whose name contains
  "email", the response has status 200 and the body
  \<^verbatim>\<open>{status: "error", message: "This email address has already been used. Please use a different email."}\<close>.
\<close>

theorem duplicate_email_reported:
  assumes "req_method req = ''POST''" and "url req = ''/submit-contact''"
    and "trim (concat (chunks req)) \<noteq> []"
    and "JSON_parse (concat (chunks req)) = Some (JObj kvs)"
    and "own_property kvs ''name'' = Some (JStr name)" and "trim name \<noteq> []"
    and "own_property kvs ''email'' = Some (JStr email)" and "matches emailRegex email"
    and "own_property kvs ''message'' = Some (JStr message)" and "trim message \<noteq> []"
    and "string_or_absent (own_property kvs ''phone'')"
    and "fst (sql flt s (InsertContact (trim name) (toLowerCase (trim email))
           (phone_argument (own_property kvs ''phone'')) (trim message)))
         = Inl (DbError (Some ''23505'') (Some k))"
    and "includes_str k ''email''"
  shows "fst (requestHandler JSON_parse flt s req) =
     Reply (json_response 200
       (error_body ''This email address has already been used. Please use a different email.''))"
proof -
  obtain s1 where q: "sql flt s (InsertContact (trim name) (toLowerCase (trim email))
      (phone_argument (own_property kvs ''phone'')) (trim message))
      = (Inl (DbError (Some ''23505'') (Some k)), s1)"
    using assms(12) by (metis prod.collapse)
  have "requestHandler JSON_parse flt s req =
      (Reply (json_response 200
        (error_body ''This email address has already been used. Please use a different email.'')),
       s1)"
    using assms(1-11) q saveContact_settle_duplicate_email [OF assms(13)]
    by (rule valid_submission_forwarded)
  then show ?thesis by simp
qed

theorem duplicate_email_reported_witness:
  "fst (requestHandler parse_examples duplicate_email empty_store (post [body_jo])) =
     Reply (json_response 200
       (error_body ''This email address has already been used. Please use a different email.''))"
  by (rule duplicate_email_reported
      [where kvs = "[(''name'', JStr ''Jo''), (''email'', JStr ''JO@Example.com''),
                     (''message'', JStr '' hi '')]"
         and name = "''Jo''" and email = "''JO@Example.com''" and message = "'' hi ''"
         and k = "''contacts_email_key''"])
    (simp_all add: post_def parse_examples_def body_defs trim_def is_space_def own_property_def
      emailRegex_def string_or_absent_def sql_def duplicate_email_def)

lemmas store_defs =
  sql_def exec_def checkTableStructure_def createTable_try_def createTable_def
  no_faults_def empty_store_def contacts_columns_def created_at_column_def column_names_def
  column_row_def is_created_at_def db_error_def

lemma ready_store_eq:
  "ready_store =
     \<lparr>contacts = Some \<lparr>columns = contacts_columns, rows = [], serial = 0\<rparr>,
      indexes = [(''idx_contacts_email'', ''email''), (''idx_contacts_created_at'', ''created_at'')],
      issued = [SelectColumns, CreateTable, CreateIndex ''idx_contacts_email'' ''email'',
                CreateIndex ''idx_contacts_created_at'' ''created_at'', SelectColumns]\<rparr>"
  by (simp add: ready_store_def store_defs)

lemma jo_values:
  "trim ''Jo'' = ''Jo''" "trim ''JO@Example.com'' = ''JO@Example.com''" "trim '' hi '' = ''hi''"
  "toLowerCase ''JO@Example.com'' = ''jo@example.com''"
  by code_simp+

lemma jo_accepted:
  "store_accepts no_faults ready_store (InsertContact ''Jo'' ''jo@example.com'' None ''hi'')"
  by (simp add: ready_store_eq store_accepts_def sql_def exec_def no_faults_def
      contacts_columns_def created_at_column_def column_names_def insert_value_def
      too_long_def null_refused_def)

text \<open>
  Claim C1, as amended. For a POST to \<^verbatim>\<open>/submit-contact\<close> whose body parses to an object
  with name and message that are strings not blank after trimming, with an email string that
  matches the pattern as received (not trimmed first), and with a phone that is missing, null
  or a string: if the store accepts the insert, the response is 200 with status "success"
  and the positive id the store assigned, the insert is the one statement issued, and the
  new row holds that id, the trimmed name and message, the trimmed and lower-cased email and
  the trimmed phone (null when missing or blank).
\<close>

theorem valid_submission_stored:
  assumes "req_method req = ''POST''" and "url req = ''/submit-contact''"
    and "trim (concat (chunks req)) \<noteq> []"
    and "JSON_parse (concat (chunks req)) = Some (JObj kvs)"
    and "own_property kvs ''name'' = Some (JStr name)" and "trim name \<noteq> []"
    and "own_property kvs ''email'' = Some (JStr email)" and "matches emailRegex email"
    and "own_property kvs ''message'' = Some (JStr message)" and "trim message \<noteq> []"
    and "string_or_absent (own_property kvs ''phone'')"
    and "store_accepts flt s (InsertContact (trim name) (toLowerCase (trim email))
           (phone_argument (own_property kvs ''phone'')) (trim message))"
  shows "\<exists>i s1 t0 t1 row.
       0 < i
     \<and> requestHandler JSON_parse flt s req =
         (Reply (json_response 200 (success_body (Some (JNum i)))), s1)
     \<and> issued s1 = issued s @ [InsertContact (trim name) (toLowerCase (trim email))
           (phone_argument (own_property kvs ''phone'')) (trim message)]
     \<and> contacts s = Some t0 \<and> contacts s1 = Some t1 \<and> rows t1 = rows t0 @ [row]
     \<and> map_of row ''id'' = Some (SqlInt i)
     \<and> map_of row ''name'' = Some (SqlText (trim name))
     \<and> map_of row ''email'' = Some (SqlText (toLowerCase (trim email)))
     \<and> map_of row ''phone'' =
         Some (case phone_argument (own_property kvs ''phone'') of
                 None \<Rightarrow> SqlNull | Some p \<Rightarrow> SqlText p)
     \<and> map_of row ''message'' = Some (SqlText (trim message))"
proof -
  let ?q = "InsertContact (trim name) (toLowerCase (trim email))
      (phone_argument (own_property kvs ''phone'')) (trim message)"
  obtain t0 where t0: "contacts s = Some t0"
    and cols: "set [''name'', ''email'', ''phone'', ''message'', ''id''] \<subseteq> set (column_names t0)"
    and q: "sql flt s ?q =
         (Inr [[(''id'', JNum (int (Suc (serial t0))))]],
          s\<lparr>issued := issued s @ [?q],
            contacts := Some (t0\<lparr>rows := rows t0 @
                [map (\<lambda>c. (c, insert_value (Suc (serial t0)) (trim name) (toLowerCase (trim email))
                    (phone_argument (own_property kvs ''phone'')) (trim message) c))
                  (column_names t0)],
              serial := Suc (serial t0)\<rparr>)\<rparr>)"
    using sql_insert_accepted [OF assms(12)] by blast
  let ?i = "int (Suc (serial t0))"
  let ?row = "map (\<lambda>c. (c, insert_value (Suc (serial t0)) (trim name) (toLowerCase (trim email))
      (phone_argument (own_property kvs ''phone'')) (trim message) c)) (column_names t0)"
  let ?t1 = "t0\<lparr>rows := rows t0 @ [?row], serial := Suc (serial t0)\<rparr>"
  let ?s1 = "s\<lparr>issued := issued s @ [?q], contacts := Some ?t1\<rparr>"
  have settle: "saveContact_settle (Inr [[(''id'', JNum ?i)]]) = Inr (success_body (Some (JNum ?i)))"
    by (simp add: saveContact_settle_def saveContact_try_def)
  have h: "requestHandler JSON_parse flt s req =
      (Reply (json_response 200 (success_body (Some (JNum ?i)))), ?s1)"
    using assms(1-11) q settle by (rule valid_submission_forwarded)
  have r: "map_of ?row ''id'' = Some (SqlInt ?i)"
    "map_of ?row ''name'' = Some (SqlText (trim name))"
    "map_of ?row ''email'' = Some (SqlText (toLowerCase (trim email)))"
    "map_of ?row ''phone'' =
       Some (case phone_argument (own_property kvs ''phone'') of
               None \<Rightarrow> SqlNull | Some p \<Rightarrow> SqlText p)"
    "map_of ?row ''message'' = Some (SqlText (trim message))"
    using cols by (simp_all add: map_of_tabulated insert_value_def)
  have "0 < ?i \<and> requestHandler JSON_parse flt s req =
         (Reply (json_response 200 (success_body (Some (JNum ?i)))), ?s1)
     \<and> issued ?s1 = issued s @ [?q]
     \<and> contacts s = Some t0 \<and> contacts ?s1 = Some ?t1 \<and> rows ?t1 = rows t0 @ [?row]
     \<and> map_of ?row ''id'' = Some (SqlInt ?i)
     \<and> map_of ?row ''name'' = Some (SqlText (trim name))
     \<and> map_of ?row ''email'' = Some (SqlText (toLowerCase (trim email)))
     \<and> map_of ?row ''phone'' =
         Some (case phone_argument (own_property kvs ''phone'') of
                 None \<Rightarrow> SqlNull | Some p \<Rightarrow> SqlText p)
     \<and> map_of ?row ''message'' = Some (SqlText (trim message))"
    using h t0 r by simp
  then show ?thesis by blast
qed

text \<open>The first submission to a freshly initialized store is such a request.\<close>

theorem valid_submission_stored_witness:
  "\<exists>i s1 t0 t1 row.
       0 < i
     \<and> requestHandler parse_examples no_faults ready_store (post [body_jo]) =
         (Reply (json_response 200 (success_body (Some (JNum i)))), s1)
     \<and> issued s1 = issued ready_store @ [InsertContact ''Jo'' ''jo@example.com'' None ''hi'']
     \<and> contacts ready_store = Some t0 \<and> contacts s1 = Some t1 \<and> rows t1 = rows t0 @ [row]
     \<and> map_of row ''id'' = Some (SqlInt i)
     \<and> map_of row ''name'' = Some (SqlText ''Jo'')
     \<and> map_of row ''email'' = Some (SqlText ''jo@example.com'')
     \<and> map_of row ''phone'' = Some SqlNull
     \<and> map_of row ''message'' = Some (SqlText ''hi'')"
proof -
  let ?kvs = "[(''name'', JStr ''Jo''), (''email'', JStr ''JO@Example.com''),
               (''message'', JStr '' hi '')]"
  have r: "req_method (post [body_jo]) = ''POST''" "url (post [body_jo]) = ''/submit-contact''"
    by (simp_all add: post_def)
  have t: "trim (concat (chunks (post [body_jo]))) \<noteq> []"
    by (simp add: post_def body_defs trim_def is_space_def)
  have p: "parse_examples (concat (chunks (post [body_jo]))) = Some (JObj ?kvs)"
    by (simp add: post_def parse_examples_def body_defs)
  have f: "own_property ?kvs ''name'' = Some (JStr ''Jo'')"
    "own_property ?kvs ''email'' = Some (JStr ''JO@Example.com'')"
    "own_property ?kvs ''message'' = Some (JStr '' hi '')"
    "own_property ?kvs ''phone'' = None"
    by (simp_all add: own_property_def)
  have n: "trim ''Jo'' \<noteq> []" "trim '' hi '' \<noteq> []"
    by (simp_all add: jo_values)
  have m: "matches emailRegex ''JO@Example.com''"
    by (simp add: emailRegex_def is_space_def)
  have ph: "string_or_absent (own_property ?kvs ''phone'')"
    by (simp add: f string_or_absent_def)
  have a: "store_accepts no_faults ready_store
      (InsertContact (trim ''Jo'') (toLowerCase (trim ''JO@Example.com''))
         (phone_argument (own_property ?kvs ''phone'')) (trim '' hi ''))"
    using jo_accepted by (simp add: jo_values f phone_argument_def)
  show ?thesis
    using valid_submission_stored
      [where JSON_parse = parse_examples and req = "post [body_jo]" and kvs = ?kvs
         and flt = no_faults and s = ready_store,
       OF r t p f(1) n(1) f(2) m f(3) n(2) ph a]
    by (simp add: jo_values f phone_argument_def)
qed

text \<open>
  The pattern is tested on the email as received: an email with a leading space is not
  blank, matches the pattern once trimmed, and is still answered with the 400 of the email
  check, on a store that would accept the insert.
\<close>

theorem valid_submission_counterexample:
  "trim ''Jo'' \<noteq> [] \<and> trim '' jo@example.com'' \<noteq> [] \<and> trim ''hi'' \<noteq> []
   \<and> matches emailRegex (trim '' jo@example.com'')
   \<and> parse_examples body_spaced_email =
       Some (JObj [(''name'', JStr ''Jo''), (''email'', JStr '' jo@example.com''),
                   (''message'', JStr ''hi'')])
   \<and> requestHandler parse_examples no_faults ready_store (post [body_spaced_email]) =
       (Reply (json_response 400 (error_body ''Please enter a valid email address.'')),
        ready_store)"
proof -
  have v: "trim ''Jo'' = ''Jo''" "trim '' jo@example.com'' = ''jo@example.com''"
    "trim ''hi'' = ''hi''"
    by code_simp+
  have p: "parse_examples body_spaced_email =
       Some (JObj [(''name'', JStr ''Jo''), (''email'', JStr '' jo@example.com''),
                   (''message'', JStr ''hi'')])"
    by (simp add: parse_examples_def body_defs)
  have t: "trim body_spaced_email \<noteq> []"
    by (simp add: body_defs trim_def is_space_def)
  have m: "matches emailRegex ''jo@example.com''" "\<not> matches emailRegex '' jo@example.com''"
    by (simp_all add: emailRegex_def is_space_def)
  have "on_end parse_examples no_faults ready_store body_spaced_email =
      (json_response 400 (error_body ''Please enter a valid email address.''), ready_store)"
    using t p
    by (rule on_end_invalid_email)
      (simp_all add: own_property_def missing_required_def v falsy_def emailRegex_test_def m)
  then show ?thesis
    using p by (simp add: post_route post_def v m)
qed

lemma valid_submission_example:
  "requestHandler parse_examples no_faults ready_store (post [body_jo]) =
     (Reply (json_response 200 (success_body (Some (JNum 1)))),
      ready_store\<lparr>issued := issued ready_store @ [InsertContact ''Jo'' ''jo@example.com'' None ''hi''],
        contacts := Some \<lparr>columns = contacts_columns,
          rows = [[(''id'', SqlInt 1), (''name'', SqlText ''Jo''),
                   (''email'', SqlText ''jo@example.com''), (''phone'', SqlNull),
                   (''message'', SqlText ''hi''), (''created_at'', SqlTimestamp)]],
          serial = 1\<rparr>\<rparr>)"
proof -
  have p: "parse_examples body_jo = Some (JObj [(''name'', JStr ''Jo''),
      (''email'', JStr ''JO@Example.com''), (''message'', JStr '' hi '')])"
    by (simp add: parse_examples_def body_defs)
  have t: "trim body_jo \<noteq> []"
    by (simp add: body_defs trim_def is_space_def)
  have m: "matches emailRegex ''JO@Example.com''"
    by (simp add: emailRegex_def is_space_def)
  show ?thesis
    by (simp add: post_route post_def on_end_def on_end_try_def t p destructure_def
        own_property_def missing_required_def jo_values falsy_def emailRegex_test_def m
        save_and_respond_def saveContact_def saveContact_settle_def saveContact_try_def
        ready_store_eq sql_def exec_def no_faults_def contacts_columns_def
        created_at_column_def column_names_def insert_value_def too_long_def null_refused_def)
qed

lemma valid_submission_numeric_phone:
  "requestHandler parse_examples no_faults ready_store (post [body_numeric_phone]) =
     (Reply (json_response 500 (error_body ''Server error. Please try again later.'')),
      ready_store)"
proof -
  have p: "parse_examples body_numeric_phone = Some (JObj [(''name'', JStr ''Jo''),
      (''email'', JStr ''jo@example.com''), (''phone'', JNum 5551234), (''message'', JStr ''hi'')])"
    by (simp add: parse_examples_def body_defs)
  have t: "trim body_numeric_phone \<noteq> []"
    by (simp add: body_defs trim_def is_space_def)
  have v: "trim ''Jo'' = ''Jo''" "trim ''jo@example.com'' = ''jo@example.com''"
    "trim ''hi'' = ''hi''"
    by code_simp+
  have m: "matches emailRegex ''jo@example.com''"
    by (simp add: emailRegex_def is_space_def)
  show ?thesis
    by (simp add: post_route post_def on_end_def on_end_try_def t p destructure_def
        own_property_def missing_required_def v falsy_def emailRegex_test_def m
        save_and_respond_def)
qed

lemma valid_submission_no_table:
  "fst (requestHandler parse_examples no_faults empty_store (post [body_jo])) =
     Reply (json_response 200
       (error_body ''Something went wrong while saving your contact. Please try again later.''))"
proof -
  have p: "parse_examples body_jo = Some (JObj [(''name'', JStr ''Jo''),
      (''email'', JStr ''JO@Example.com''), (''message'', JStr '' hi '')])"
    by (simp add: parse_examples_def body_defs)
  have t: "trim body_jo \<noteq> []"
    by (simp add: body_defs trim_def is_space_def)
  have m: "matches emailRegex ''JO@Example.com''"
    by (simp add: emailRegex_def is_space_def)
  show ?thesis
    by (simp add: post_route post_def on_end_def on_end_try_def t p destructure_def
        own_property_def missing_required_def jo_values falsy_def emailRegex_test_def m
        save_and_respond_def saveContact_def saveContact_settle_def saveContact_try_def
        saveContact_catch_def sql_def exec_def no_faults_def empty_store_def db_error_def)
qed

section \<open>The schema initializer\<close>

lemma is_created_at_listed:
  "list_ex is_created_at (map column_row cs) \<longleftrightarrow> ''created_at'' \<in> set (map column_name cs)"
proof (induction cs)
  case Nil
  show ?case by simp
next
  case (Cons c cs)
  have "is_created_at (column_row c) \<longleftrightarrow> column_name c = ''created_at''"
    by (simp add: is_created_at_def column_row_def)
  with Cons show ?case by auto
qed

lemma exec_select:
  "exec s SelectColumns =
     Inr (case contacts s of None \<Rightarrow> [] | Some t \<Rightarrow> map column_row (columns t), s)"
  by (simp add: exec_def)

lemma checkTableStructure_eq:
  "checkTableStructure flt s =
     (if flt SelectColumns = None
      then (case contacts s of None \<Rightarrow> [] | Some t \<Rightarrow> map column_row (columns t))
      else [], s\<lparr>issued := issued s @ [SelectColumns]\<rparr>)"
  by (simp add: checkTableStructure_def sql_def exec_select Let_def split: option.split)

lemma listed_columns_cases:
  "flt SelectColumns \<noteq> None \<Longrightarrow> listed_columns flt c = []"
  "flt SelectColumns = None \<Longrightarrow> listed_columns flt None = []"
  "flt SelectColumns = None \<Longrightarrow> listed_columns flt (Some t) = column_names t"
  by (auto simp add: listed_columns_def)

lemma checkTableStructure_cases:
  "flt SelectColumns \<noteq> None \<Longrightarrow> fst (checkTableStructure flt s) = []"
  "flt SelectColumns = None \<Longrightarrow> contacts s = None \<Longrightarrow> fst (checkTableStructure flt s) = []"
  "flt SelectColumns = None \<Longrightarrow> contacts s = Some t \<Longrightarrow>
     fst (checkTableStructure flt s) = map column_row (columns t)"
  by (auto simp add: checkTableStructure_eq)

lemma checkTableStructure_created_at:
  "list_ex is_created_at (fst (checkTableStructure flt s))
     \<longleftrightarrow> ''created_at'' \<in> set (listed_columns flt (contacts s))"
proof (cases "flt SelectColumns = None")
  case True
  show ?thesis
  proof (cases "contacts s")
    case None
    with True show ?thesis
      by (simp add: checkTableStructure_cases listed_columns_cases)
  next
    case (Some t)
    with True show ?thesis
      by (simp add: checkTableStructure_cases listed_columns_cases is_created_at_listed
          column_names_def)
  qed
next
  case False
  then show ?thesis
    by (simp add: checkTableStructure_cases listed_columns_cases)
qed

lemma checkTableStructure_empty:
  "fst (checkTableStructure flt s) = [] \<longleftrightarrow> listed_columns flt (contacts s) = []"
proof (cases "flt SelectColumns = None")
  case True
  show ?thesis
  proof (cases "contacts s")
    case None
    with True show ?thesis
      by (simp add: checkTableStructure_cases listed_columns_cases)
  next
    case (Some t)
    with True show ?thesis
      by (simp add: checkTableStructure_cases listed_columns_cases column_names_def)
  qed
next
  case False
  then show ?thesis
    by (simp add: checkTableStructure_cases listed_columns_cases)
qed

lemma checkTableStructure_schema:
  "schema_state (snd (checkTableStructure flt s)) = schema_state s"
  by (simp add: checkTableStructure_eq schema_state_def)

lemma sql_index_schema:
  "schema_state (snd (sql flt s (CreateIndex ix col))) = add_index flt ix col (schema_state s)"
  by (auto simp add: Let_def sql_def exec_def schema_state_def add_index_def split: option.splits)

lemma sql_alter_schema:
  "sql flt s AlterAddCreatedAt = (r, s1) \<Longrightarrow>
     (case r of
        Inl e \<Rightarrow> schema_state s1 = schema_state s
                 \<and> (flt AlterAddCreatedAt \<noteq> None \<or> contacts s = None
                      \<or> (\<exists>t. contacts s = Some t \<and> ''created_at'' \<in> set (column_names t)))
      | Inr d \<Rightarrow> flt AlterAddCreatedAt = None
                 \<and> (\<exists>t. contacts s = Some t
                      \<and> schema_state s1 =
                          (Some (t\<lparr>columns := columns t @ [created_at_column],
                             rows := map (\<lambda>r. r @ [(''created_at'', SqlTimestamp)]) (rows t)\<rparr>),
                           indexes s)))"
  by (auto simp add: Let_def sql_def exec_def schema_state_def split: option.splits if_splits)

lemma sql_create_schema:
  "sql flt s CreateTable = (r, s1) \<Longrightarrow>
     (case r of
        Inl e \<Rightarrow> schema_state s1 = schema_state s \<and> flt CreateTable \<noteq> None
      | Inr d \<Rightarrow> flt CreateTable = None
                 \<and> schema_state s1 =
                      (case contacts s of
                         None \<Rightarrow> Some \<lparr>columns = contacts_columns, rows = [], serial = 0\<rparr>
                       | Some t \<Rightarrow> Some t, indexes s))"
  by (auto simp add: Let_def sql_def exec_def schema_state_def split: option.splits if_splits)

lemma alter_branch:
  assumes "''created_at'' \<notin> set (listed_columns flt c) \<and> listed_columns flt c \<noteq> []"
  obtains t where "flt SelectColumns = None" and "c = Some t"
    and "''created_at'' \<notin> set (column_names t)"
proof (cases "flt SelectColumns = None")
  case True
  show ?thesis
  proof (cases c)
    case None
    with True assms show ?thesis by (simp add: listed_columns_cases)
  next
    case (Some t)
    with True assms that show ?thesis by (simp add: listed_columns_cases)
  qed
next
  case False
  with assms show ?thesis by (simp add: listed_columns_cases)
qed

lemma ensure_table_alter_fault:
  assumes "''created_at'' \<notin> set (listed_columns flt c) \<and> listed_columns flt c \<noteq> []"
    and "flt AlterAddCreatedAt = Some e"
  shows "ensure_table flt c = None"
  using assms by (simp add: ensure_table_def)

lemma ensure_table_alter:
  assumes "''created_at'' \<notin> set (listed_columns flt (Some t)) \<and> listed_columns flt (Some t) \<noteq> []"
    and "flt AlterAddCreatedAt = None"
  shows "ensure_table flt (Some t) =
     Some (Some (t\<lparr>columns := columns t @ [created_at_column],
       rows := map (\<lambda>r. r @ [(''created_at'', SqlTimestamp)]) (rows t)\<rparr>))"
  using assms by (simp add: ensure_table_def)

lemma ensure_table_create_fault:
  assumes "\<not> (''created_at'' \<notin> set (listed_columns flt c) \<and> listed_columns flt c \<noteq> [])"
    and "flt CreateTable = Some e"
  shows "ensure_table flt c = None"
  using assms by (auto simp add: ensure_table_def)

lemma ensure_table_create:
  assumes "\<not> (''created_at'' \<notin> set (listed_columns flt c) \<and> listed_columns flt c \<noteq> [])"
    and "flt CreateTable = None"
  shows "ensure_table flt c =
     Some (case c of
             None \<Rightarrow> Some \<lparr>columns = contacts_columns, rows = [], serial = 0\<rparr>
           | Some t \<Rightarrow> Some t)"
  using assms by (auto simp add: ensure_table_def)

lemma createTable_after_first:
  assumes "checkTableStructure flt s = (existing, s1)"
    and "(if \<not> list_ex is_created_at existing \<and> length existing > 0
          then sql flt s1 AlterAddCreatedAt else sql flt s1 CreateTable) = (r, s2)"
  shows "schema_state (snd (createTable flt s)) =
     (case r of
        Inl e \<Rightarrow> schema_state s2
      | Inr d \<Rightarrow>
          add_index flt ''idx_contacts_created_at'' ''created_at''
            (add_index flt ''idx_contacts_email'' ''email'' (schema_state s2)))"
  using assms
  by (auto simp add: createTable_def createTable_try_def Let_def case_prod_beta sql_index_schema
      checkTableStructure_schema split: sum.split if_splits)

lemma createTable_schema:
  "schema_state (snd (createTable flt s)) = init_schema flt (schema_state s)"
proof -
  obtain existing s1 where c: "checkTableStructure flt s = (existing, s1)"
    by (cases "checkTableStructure flt s")
  have s1: "schema_state s1 = schema_state s"
    using checkTableStructure_schema [of flt s] c by simp
  have has: "list_ex is_created_at existing \<longleftrightarrow> ''created_at'' \<in> set (listed_columns flt (contacts s))"
    using checkTableStructure_created_at [of flt s] c by simp
  have emp: "existing = [] \<longleftrightarrow> listed_columns flt (contacts s) = []"
    using checkTableStructure_empty [of flt s] c by simp
  have cs1: "contacts s1 = contacts s" "indexes s1 = indexes s"
    using s1 by (simp_all add: schema_state_def)
  have x: "fst (schema_state s) = contacts s" "snd (schema_state s) = indexes s"
    by (simp_all add: schema_state_def)
  show ?thesis
  proof (cases "''created_at'' \<notin> set (listed_columns flt (contacts s))
      \<and> listed_columns flt (contacts s) \<noteq> []")
    case True
    obtain t where t: "flt SelectColumns = None" "contacts s = Some t"
      "''created_at'' \<notin> set (column_names t)"
      using True by (rule alter_branch)
    obtain r s2 where q: "sql flt s1 AlterAddCreatedAt = (r, s2)"
      by (cases "sql flt s1 AlterAddCreatedAt")
    have first: "(if \<not> list_ex is_created_at existing \<and> length existing > 0
          then sql flt s1 AlterAddCreatedAt else sql flt s1 CreateTable) = (r, s2)"
      using True has emp q by simp
    show ?thesis
    proof (cases r)
      case (Inl e)
      with sql_alter_schema [OF q] have u: "schema_state s2 = schema_state s"
        and "flt AlterAddCreatedAt \<noteq> None \<or> contacts s = None
               \<or> (\<exists>t. contacts s = Some t \<and> ''created_at'' \<in> set (column_names t))"
        using s1 cs1 by simp_all
      then obtain e' where "flt AlterAddCreatedAt = Some e'"
        using t by auto
      with True have "ensure_table flt (contacts s) = None"
        by (rule ensure_table_alter_fault)
      then show ?thesis
        using createTable_after_first [OF c first] Inl u
        by (simp add: init_schema_def x)
    next
      case (Inr d)
      with sql_alter_schema [OF q] have f: "flt AlterAddCreatedAt = None"
        and "\<exists>t. contacts s = Some t \<and> schema_state s2 =
            (Some (t\<lparr>columns := columns t @ [created_at_column],
               rows := map (\<lambda>r. r @ [(''created_at'', SqlTimestamp)]) (rows t)\<rparr>), indexes s)"
        using cs1 by simp_all
      then have u: "schema_state s2 =
            (Some (t\<lparr>columns := columns t @ [created_at_column],
               rows := map (\<lambda>r. r @ [(''created_at'', SqlTimestamp)]) (rows t)\<rparr>), indexes s)"
        using t(2) by auto
      have "ensure_table flt (contacts s) =
          Some (Some (t\<lparr>columns := columns t @ [created_at_column],
            rows := map (\<lambda>r. r @ [(''created_at'', SqlTimestamp)]) (rows t)\<rparr>))"
        using True f unfolding t(2) by (rule ensure_table_alter)
      then show ?thesis
        using createTable_after_first [OF c first] Inr u
        by (simp add: init_schema_def x)
    qed
  next
    case False
    obtain r s2 where q: "sql flt s1 CreateTable = (r, s2)"
      by (cases "sql flt s1 CreateTable")
    have first: "(if \<not> list_ex is_created_at existing \<and> length existing > 0
          then sql flt s1 AlterAddCreatedAt else sql flt s1 CreateTable) = (r, s2)"
      using False has emp q by auto
    show ?thesis
    proof (cases r)
      case (Inl e)
      with sql_create_schema [OF q] have u: "schema_state s2 = schema_state s"
        and "flt CreateTable \<noteq> None"
        using s1 by simp_all
      then obtain e' where "flt CreateTable = Some e'"
        by auto
      with False have "ensure_table flt (contacts s) = None"
        by (rule ensure_table_create_fault)
      then show ?thesis
        using createTable_after_first [OF c first] Inl u
        by (simp add: init_schema_def x)
    next
      case (Inr d)
      with sql_create_schema [OF q] have f: "flt CreateTable = None"
        and u: "schema_state s2 =
           (case contacts s of
              None \<Rightarrow> Some \<lparr>columns = contacts_columns, rows = [], serial = 0\<rparr>
            | Some t \<Rightarrow> Some t, indexes s)"
        using cs1 by simp_all
      have "ensure_table flt (contacts s) =
          Some (case contacts s of
              None \<Rightarrow> Some \<lparr>columns = contacts_columns, rows = [], serial = 0\<rparr>
            | Some t \<Rightarrow> Some t)"
        using False f by (rule ensure_table_create)
      then show ?thesis
        using createTable_after_first [OF c first] Inr u
        by (simp add: init_schema_def x)
    qed
  qed
qed

lemma add_index_table: "fst (add_index flt ix col x) = fst x"
  by (cases x; cases "fst x") (simp_all add: add_index_def)

lemma add_index_cases:
  "add_index flt ix col (None, ixs) = (None, ixs)"
  "flt (CreateIndex ix col) = None \<Longrightarrow> col \<in> set (column_names t) \<Longrightarrow> ix \<notin> set (map fst ixs) \<Longrightarrow>
     add_index flt ix col (Some t, ixs) = (Some t, ixs @ [(ix, col)])"
  "\<not> (flt (CreateIndex ix col) = None \<and> col \<in> set (column_names t) \<and> ix \<notin> set (map fst ixs)) \<Longrightarrow>
     add_index flt ix col (Some t, ixs) = (Some t, ixs)"
  by (simp_all add: add_index_def)

lemma add_index_grows: "set (snd x) \<subseteq> set (snd (add_index flt ix col x))"
  by (cases x; cases "fst x") (auto simp add: add_index_def)

lemma add_index_settled:
  assumes "fst x = fst z" and "set (snd (add_index flt ix col z)) \<subseteq> set (snd x)"
  shows "add_index flt ix col x = x"
proof (cases x)
  case (Pair c ixs)
  show ?thesis
  proof (cases c)
    case None
    with Pair show ?thesis by (simp add: add_index_cases)
  next
    case (Some t)
    obtain zs where z: "z = (Some t, zs)"
      using assms(1) Pair Some by (cases z) simp
    show ?thesis
    proof (cases "flt (CreateIndex ix col) = None \<and> col \<in> set (column_names t)")
      case True
      have "ix \<in> set (map fst (snd (add_index flt ix col z)))"
        using True z by (cases "ix \<in> set (map fst zs)") (simp_all add: add_index_cases)
      then have "ix \<in> set (map fst ixs)"
        using assms(2) Pair by auto
      with Pair Some show ?thesis by (simp add: add_index_cases)
    next
      case False
      then have "add_index flt ix col (Some t, ixs) = (Some t, ixs)"
        by (intro add_index_cases(3)) blast
      with Pair Some show ?thesis by simp
    qed
  qed
qed

lemma add_index_twice:
  "add_index flt ix col (add_index flt ix col x) = add_index flt ix col x"
  by (rule add_index_settled [where z = x]) (simp_all add: add_index_table)

lemma add_index_after:
  "add_index flt ix col (add_index flt ix' col' (add_index flt ix col x)) =
     add_index flt ix' col' (add_index flt ix col x)"
  by (rule add_index_settled [where z = x]) (simp_all add: add_index_table add_index_grows)

lemma ensure_table_again:
  assumes "ensure_table flt c0 = Some c"
  shows "ensure_table flt c = None \<or> ensure_table flt c = Some c"
proof (cases "''created_at'' \<notin> set (listed_columns flt c0) \<and> listed_columns flt c0 \<noteq> []")
  case True
  then obtain t where t: "flt SelectColumns = None" "c0 = Some t"
    "''created_at'' \<notin> set (column_names t)"
    by (rule alter_branch)
  have f: "flt AlterAddCreatedAt = None"
  proof (cases "flt AlterAddCreatedAt")
    case None
    then show ?thesis .
  next
    case (Some e)
    with True have "ensure_table flt c0 = None" by (rule ensure_table_alter_fault)
    with assms show ?thesis by simp
  qed
  let ?t = "t\<lparr>columns := columns t @ [created_at_column],
       rows := map (\<lambda>r. r @ [(''created_at'', SqlTimestamp)]) (rows t)\<rparr>"
  have c: "c = Some ?t"
    using ensure_table_alter [of flt t] True f assms t(2) by simp
  have l: "''created_at'' \<in> set (listed_columns flt (Some ?t))"
    using t(1) by (simp add: listed_columns_cases column_names_def created_at_column_def)
  then have n: "\<not> (''created_at'' \<notin> set (listed_columns flt (Some ?t))
      \<and> listed_columns flt (Some ?t) \<noteq> [])"
    by simp
  show ?thesis
  proof (cases "flt CreateTable")
    case None
    with n have "ensure_table flt (Some ?t) = Some (case Some ?t of
             None \<Rightarrow> Some \<lparr>columns = contacts_columns, rows = [], serial = 0\<rparr>
           | Some t \<Rightarrow> Some t)"
      by (rule ensure_table_create)
    with c show ?thesis by simp
  next
    case (Some e)
    with n have "ensure_table flt (Some ?t) = None" by (rule ensure_table_create_fault)
    with c show ?thesis by simp
  qed
next
  case False
  have f: "flt CreateTable = None"
  proof (cases "flt CreateTable")
    case None
    then show ?thesis .
  next
    case (Some e)
    with False have "ensure_table flt c0 = None" by (rule ensure_table_create_fault)
    with assms show ?thesis by simp
  qed
  have c: "c = (case c0 of
             None \<Rightarrow> Some \<lparr>columns = contacts_columns, rows = [], serial = 0\<rparr>
           | Some t \<Rightarrow> Some t)"
    using ensure_table_create [OF False f] assms by simp
  show ?thesis
  proof (cases c0)
    case (Some t)
    with c assms show ?thesis by simp
  next
    case None
    let ?fresh = "\<lparr>columns = contacts_columns, rows = [], serial = 0\<rparr>"
    have cf: "c = Some ?fresh" using c None by simp
    have "\<not> (''created_at'' \<notin> set (listed_columns flt (Some ?fresh))
        \<and> listed_columns flt (Some ?fresh) \<noteq> [])"
      by (cases "flt SelectColumns = None")
        (simp_all add: listed_columns_cases column_names_def contacts_columns_def
          created_at_column_def)
    then have "ensure_table flt (Some ?fresh) = Some (case Some ?fresh of
             None \<Rightarrow> Some \<lparr>columns = contacts_columns, rows = [], serial = 0\<rparr>
           | Some t \<Rightarrow> Some t)"
      using f by (rule ensure_table_create)
    with cf show ?thesis by simp
  qed
qed

lemma init_schema_twice: "init_schema flt (init_schema flt x) = init_schema flt x"
proof (cases "ensure_table flt (fst x)")
  case None
  then show ?thesis by (simp add: init_schema_def)
next
  case (Some c)
  let ?y = "add_index flt ''idx_contacts_created_at'' ''created_at''
      (add_index flt ''idx_contacts_email'' ''email'' (c, snd x))"
  have y: "init_schema flt x = ?y"
    using Some by (simp add: init_schema_def)
  have fy: "fst ?y = c"
    by (simp add: add_index_table)
  have eq: "(c, snd ?y) = ?y"
    using fy by (metis prod.collapse)
  from ensure_table_again [OF Some] show ?thesis
  proof
    assume "ensure_table flt c = None"
    then show ?thesis using y fy by (simp add: init_schema_def)
  next
    assume "ensure_table flt c = Some c"
    then have "init_schema flt ?y =
        add_index flt ''idx_contacts_created_at'' ''created_at''
          (add_index flt ''idx_contacts_email'' ''email'' (c, snd ?y))"
      using fy by (simp add: init_schema_def)
    also have "\<dots> = ?y"
      unfolding eq by (simp add: add_index_after add_index_twice)
    finally show ?thesis using y by simp
  qed
qed

lemma createTable_returns: "fst (createTable flt s) = None"
  by (simp add: createTable_def split: prod.split option.split)

lemma add_index_shape:
  "snd (add_index flt ix col x) = snd x \<or> snd (add_index flt ix col x) = snd x @ [(ix, col)]"
  by (cases x; cases "fst x") (auto simp add: add_index_def)

lemma named_on_member: "named_on ixs ix col \<Longrightarrow> (ix, c) \<in> set ixs \<Longrightarrow> c = col"
  by (auto simp add: named_on_def list_all_iff)

lemma named_on_free: "ix \<notin> set (map fst ixs) \<Longrightarrow> named_on ixs ix col"
  by (auto simp add: named_on_def list_all_iff)

lemma named_on_snoc:
  "named_on ixs ix col \<Longrightarrow> ix' \<noteq> ix \<or> col' = col \<Longrightarrow> named_on (ixs @ [(ix', col')]) ix col"
  by (auto simp add: named_on_def)

lemma add_index_named:
  assumes "named_on (snd x) ix' col'" and "ix \<noteq> ix' \<or> col = col'"
  shows "named_on (snd (add_index flt ix col x)) ix' col'"
  using add_index_shape [of flt ix col x]
proof
  assume "snd (add_index flt ix col x) = snd x"
  with assms(1) show ?thesis by simp
next
  assume "snd (add_index flt ix col x) = snd x @ [(ix, col)]"
  with named_on_snoc [OF assms] show ?thesis by simp
qed

lemma add_index_present:
  assumes "flt (CreateIndex ix col) = None" and "col \<in> set (column_names t)"
    and "named_on ixs ix col"
  shows "(ix, col) \<in> set (snd (add_index flt ix col (Some t, ixs)))"
proof (cases "ix \<in> set (map fst ixs)")
  case True
  then obtain c where c: "(ix, c) \<in> set ixs" by auto
  with assms(3) have "c = col" by (rule named_on_member)
  with c have "(ix, col) \<in> set (snd (Some t, ixs))" by simp
  then show ?thesis
    using add_index_grows [of "(Some t, ixs)" flt ix col] by blast
next
  case False
  with assms(1,2) show ?thesis by (simp add: add_index_cases)
qed

lemma add_index_on:
  assumes "flt (CreateIndex ix col) = None" and "col \<in> set (column_names t)"
    and "named_on ixs ix col"
  shows "index_on (snd (add_index flt ix col (Some t, ixs))) ix col"
proof -
  have "named_on (snd (Some t, ixs)) ix col" using assms(3) by simp
  then have "named_on (snd (add_index flt ix col (Some t, ixs))) ix col"
    by (rule add_index_named) simp
  with add_index_present [where flt = flt, OF assms] show ?thesis by (simp add: index_on_def)
qed

lemma add_index_keeps:
  assumes "index_on (snd x) ix' col'" and "ix \<noteq> ix' \<or> col = col'"
  shows "index_on (snd (add_index flt ix col x)) ix' col'"
proof -
  have "(ix', col') \<in> set (snd (add_index flt ix col x))"
    using assms(1) add_index_grows [of x flt ix col] by (auto simp add: index_on_def)
  moreover have "named_on (snd (add_index flt ix col x)) ix' col'"
    using assms by (intro add_index_named) (simp_all add: index_on_def)
  ultimately show ?thesis by (simp add: index_on_def)
qed

lemma has_expected_schema_iff: "has_expected_schema s \<longleftrightarrow> expected_schema (schema_state s)"
  by (cases "contacts s") (simp_all add: has_expected_schema_def expected_schema_def schema_state_def)

lemma expected_schemaI:
  assumes "fst x = Some t"
    and "once (column_names t) [''id'', ''name'', ''email'', ''phone'', ''message'', ''created_at'']"
    and "index_on (snd x) ''idx_contacts_email'' ''email''"
    and "index_on (snd x) ''idx_contacts_created_at'' ''created_at''"
  shows "expected_schema x"
  using assms by (simp add: expected_schema_def)

lemma absent_or_legacy_names:
  assumes "absent_or_legacy s"
  shows "named_on (indexes s) ''idx_contacts_email'' ''email''"
    and "named_on (indexes s) ''idx_contacts_created_at'' ''created_at''"
proof -
  show "named_on (indexes s) ''idx_contacts_email'' ''email''"
  proof (cases "contacts s")
    case None
    with assms show ?thesis by (simp add: absent_or_legacy_def named_on_free)
  next
    case (Some t)
    with assms show ?thesis by (simp add: absent_or_legacy_def)
  qed
  show "named_on (indexes s) ''idx_contacts_created_at'' ''created_at''"
  proof (cases "contacts s")
    case None
    with assms show ?thesis by (simp add: absent_or_legacy_def named_on_free)
  next
    case (Some t)
    with assms show ?thesis by (simp add: absent_or_legacy_def)
  qed
qed

lemma once_member:
  assumes "once names cs" and "c \<in> set cs"
  shows "c \<in> set names"
proof (rule ccontr)
  assume "c \<notin> set names"
  then have "count_list names c = 0" by (rule count_notin)
  moreover have "count_list names c = 1"
    using assms by (simp add: once_def list_all_iff)
  ultimately show False by simp
qed

lemma ensure_table_no_faults:
  assumes "absent_or_legacy s"
  obtains t where "ensure_table no_faults (contacts s) = Some (Some t)"
    and "once (column_names t) [''id'', ''name'', ''email'', ''phone'', ''message'', ''created_at'']"
proof (cases "contacts s")
  case None
  have "\<not> (''created_at'' \<notin> set (listed_columns no_faults None)
      \<and> listed_columns no_faults None \<noteq> [])"
    by (simp add: listed_columns_cases no_faults_def)
  then have "ensure_table no_faults None =
      Some (case None of
              None \<Rightarrow> Some \<lparr>columns = contacts_columns, rows = [], serial = 0\<rparr>
            | Some t \<Rightarrow> Some t)"
    by (rule ensure_table_create) (simp add: no_faults_def)
  moreover have "once (column_names \<lparr>columns = contacts_columns, rows = [], serial = 0\<rparr>)
      [''id'', ''name'', ''email'', ''phone'', ''message'', ''created_at'']"
    by (simp add: once_def column_names_def contacts_columns_def created_at_column_def)
  ultimately show ?thesis using None that by simp
next
  case (Some t)
  with assms have base: "once (column_names t) [''id'', ''name'', ''email'', ''phone'', ''message'']"
    and ts: "count_list (column_names t) ''created_at'' \<le> 1"
    by (simp_all add: absent_or_legacy_def)
  have l: "listed_columns no_faults (Some t) = column_names t"
    by (simp add: listed_columns_cases no_faults_def)
  have ne: "column_names t \<noteq> []"
    using once_member [OF base, of "''id''"] by auto
  show ?thesis
  proof (cases "''created_at'' \<in> set (column_names t)")
    case True
    then have "\<not> (''created_at'' \<notin> set (listed_columns no_faults (Some t))
        \<and> listed_columns no_faults (Some t) \<noteq> [])"
      using l by simp
    then have "ensure_table no_faults (Some t) =
        Some (case Some t of
                None \<Rightarrow> Some \<lparr>columns = contacts_columns, rows = [], serial = 0\<rparr>
              | Some t \<Rightarrow> Some t)"
      by (rule ensure_table_create) (simp add: no_faults_def)
    moreover have "count_list (column_names t) ''created_at'' = 1"
      using True ts by (metis count_list_0_iff le_neq_implies_less less_one)
    ultimately show ?thesis
      using Some base that [of t] by (simp add: once_def)
  next
    case False
    let ?t = "t\<lparr>columns := columns t @ [created_at_column],
       rows := map (\<lambda>r. r @ [(''created_at'', SqlTimestamp)]) (rows t)\<rparr>"
    have "''created_at'' \<notin> set (listed_columns no_faults (Some t))
        \<and> listed_columns no_faults (Some t) \<noteq> []"
      using False l ne by simp
    then have "ensure_table no_faults (Some t) = Some (Some ?t)"
      by (rule ensure_table_alter) (simp add: no_faults_def)
    moreover have "once (column_names ?t)
        [''id'', ''name'', ''email'', ''phone'', ''message'', ''created_at'']"
      using base False
      by (simp add: once_def column_names_def created_at_column_def)
    ultimately show ?thesis using Some that [of ?t] by simp
  qed
qed

lemma init_schema_expected:
  assumes "absent_or_legacy s"
  shows "expected_schema (init_schema no_faults (schema_state s))"
proof -
  obtain t where t: "ensure_table no_faults (contacts s) = Some (Some t)"
    and o: "once (column_names t) [''id'', ''name'', ''email'', ''phone'', ''message'', ''created_at'']"
    using assms by (rule ensure_table_no_faults)
  let ?a = "add_index no_faults ''idx_contacts_email'' ''email'' (Some t, indexes s)"
  let ?b = "add_index no_faults ''idx_contacts_created_at'' ''created_at'' ?a"
  have i: "init_schema no_faults (schema_state s) = ?b"
    using t by (simp add: init_schema_def schema_state_def)
  have e: "''email'' \<in> set (column_names t)" and c: "''created_at'' \<in> set (column_names t)"
    using once_member [OF o] by simp_all
  have nf: "no_faults q = None" for q
    by (simp add: no_faults_def)
  have a: "index_on (snd ?a) ''idx_contacts_email'' ''email''"
    by (rule add_index_on [where flt = no_faults, OF nf e absent_or_legacy_names(1) [OF assms]])
  have "named_on (snd (Some t, indexes s)) ''idx_contacts_created_at'' ''created_at''"
    using absent_or_legacy_names(2) [OF assms] by simp
  then have na: "named_on (snd ?a) ''idx_contacts_created_at'' ''created_at''"
    by (rule add_index_named) simp
  have fa: "?a = (Some t, snd ?a)"
    using add_index_table [of no_faults "''idx_contacts_email''" "''email''" "(Some t, indexes s)"]
    by (metis fst_conv prod.collapse)
  have "index_on (snd (add_index no_faults ''idx_contacts_created_at'' ''created_at''
      (Some t, snd ?a))) ''idx_contacts_created_at'' ''created_at''"
    by (rule add_index_on [where flt = no_faults, OF nf c na])
  then have b2: "index_on (snd ?b) ''idx_contacts_created_at'' ''created_at''"
    using fa by simp
  have b1: "index_on (snd ?b) ''idx_contacts_email'' ''email''"
    using a by (rule add_index_keeps) simp
  have "fst ?b = Some t"
    by (simp add: add_index_table)
  then have "expected_schema ?b"
    using o b1 b2 by (rule expected_schemaI)
  with i show ?thesis by simp
qed

lemma partial_store_initialised:
  "schema_state (snd (createTable no_faults partial_store)) =
     (Some \<lparr>columns =
         [\<lparr>column_name = ''id'', data_type = ''integer'', is_nullable = False, max_length = None\<rparr>,
          \<lparr>column_name = ''name'', data_type = ''character varying'', is_nullable = False,
            max_length = Some 100\<rparr>,
          created_at_column],
        rows = [], serial = 0\<rparr>,
      [(''idx_contacts_created_at'', ''created_at'')])"
  by (subst createTable_schema)
    (simp add: init_schema_def ensure_table_def listed_columns_def
      add_index_def no_faults_def partial_store_def schema_state_def column_names_def
      created_at_column_def)

lemma no_duplicate_columns_iff:
  "no_duplicate_columns s \<longleftrightarrow> distinct_columns (fst (schema_state s))"
  by (simp add: no_duplicate_columns_def distinct_columns_def schema_state_def)

lemma ensure_table_distinct:
  assumes "ensure_table flt c0 = Some c" and "distinct_columns c0"
  shows "distinct_columns c"
proof (cases "''created_at'' \<notin> set (listed_columns flt c0) \<and> listed_columns flt c0 \<noteq> []")
  case True
  then obtain t where t: "flt SelectColumns = None" "c0 = Some t"
    "''created_at'' \<notin> set (column_names t)"
    by (rule alter_branch)
  have f: "flt AlterAddCreatedAt = None"
  proof (cases "flt AlterAddCreatedAt")
    case None
    then show ?thesis .
  next
    case (Some e)
    with True have "ensure_table flt c0 = None" by (rule ensure_table_alter_fault)
    with assms show ?thesis by simp
  qed
  let ?t = "t\<lparr>columns := columns t @ [created_at_column],
       rows := map (\<lambda>r. r @ [(''created_at'', SqlTimestamp)]) (rows t)\<rparr>"
  have c: "c = Some ?t"
    using ensure_table_alter [of flt t] True f assms(1) t(2) by simp
  have "distinct (column_names t)"
    using assms(2) t(2) by (simp add: distinct_columns_def)
  then have "distinct (column_names ?t)"
    using t(3) by (simp add: column_names_def created_at_column_def)
  with c show ?thesis by (simp add: distinct_columns_def)
next
  case False
  have f: "flt CreateTable = None"
  proof (cases "flt CreateTable")
    case None
    then show ?thesis .
  next
    case (Some e)
    with False have "ensure_table flt c0 = None" by (rule ensure_table_create_fault)
    with assms show ?thesis by simp
  qed
  have c: "c = (case c0 of
             None \<Rightarrow> Some \<lparr>columns = contacts_columns, rows = [], serial = 0\<rparr>
           | Some t \<Rightarrow> Some t)"
    using ensure_table_create [OF False f] assms(1) by simp
  show ?thesis
  proof (cases c0)
    case None
    with c show ?thesis
      by (simp add: distinct_columns_def column_names_def contacts_columns_def
          created_at_column_def)
  next
    case (Some t)
    with c assms(2) show ?thesis by simp
  qed
qed

lemma init_schema_distinct:
  assumes "distinct_columns (fst x)"
  shows "distinct_columns (fst (init_schema flt x))"
proof (cases "ensure_table flt (fst x)")
  case None
  with assms show ?thesis by (simp add: init_schema_def)
next
  case (Some c)
  then have "distinct_columns c" using assms by (rule ensure_table_distinct)
  with Some show ?thesis by (simp add: init_schema_def add_index_table)
qed

lemma createTable_no_duplicate_columns:
  "no_duplicate_columns s \<Longrightarrow> no_duplicate_columns (snd (createTable flt s))"
  by (simp add: no_duplicate_columns_iff createTable_schema init_schema_distinct)

text \<open>
  An index statement skips when its name exists: if the name of the email index is taken by
  an index on another column, the email column is left without an index.
\<close>

lemma misnamed_index_kept:
  "schema_state (snd (createTable no_faults misnamed_index_store)) =
     (Some \<lparr>columns = legacy_columns @ [created_at_column],
        rows = [legacy_row @ [(''created_at'', SqlTimestamp)]], serial = 1\<rparr>,
      [(''idx_contacts_email'', ''name''), (''idx_contacts_created_at'', ''created_at'')])"
  by (subst createTable_schema)
    (simp add: init_schema_def ensure_table_def listed_columns_def
      add_index_def no_faults_def misnamed_index_store_def schema_state_def column_names_def
      created_at_column_def legacy_columns_def)

lemma misnamed_index_not_expected:
  "\<not> absent_or_legacy misnamed_index_store
   \<and> \<not> has_expected_schema (snd (createTable no_faults misnamed_index_store))"
proof
  show "\<not> absent_or_legacy misnamed_index_store"
    by (simp add: absent_or_legacy_def misnamed_index_store_def named_on_def)
  show "\<not> has_expected_schema (snd (createTable no_faults misnamed_index_store))"
    by (simp add: has_expected_schema_iff misnamed_index_kept expected_schema_def index_on_def)
qed

text \<open>
  Claim C8, as amended. For every starting state of the store and every fixed behaviour of
  its faults, running \<^verbatim>\<open>createTable\<close> twice in succession leaves the table and the
  indexes as one run leaves them, neither run lets an exception out, and a table without
  duplicate column names stays without any. When the store has no faults and starts with no
  table and both index names free, or with a table holding each of id, name, email, phone,
  message once and created_at at most once and no index of either name on another column,
  the table ends with exactly one copy of each of the six columns, with
  \<^verbatim>\<open>idx_contacts_email\<close> on email and with \<^verbatim>\<open>idx_contacts_created_at\<close> on created_at.
\<close>

theorem createTable_idempotent:
  "schema_state (snd (createTable flt (snd (createTable flt s)))) =
     schema_state (snd (createTable flt s))
   \<and> fst (createTable flt s) = None
   \<and> fst (createTable flt (snd (createTable flt s))) = None
   \<and> (no_duplicate_columns s \<longrightarrow> no_duplicate_columns (snd (createTable flt s)))
   \<and> (absent_or_legacy s \<longrightarrow>
        has_expected_schema (snd (createTable no_faults s))
        \<and> has_expected_schema (snd (createTable no_faults (snd (createTable no_faults s)))))"
proof -
  have twice: "schema_state (snd (createTable f (snd (createTable f s)))) =
     schema_state (snd (createTable f s))" for f
    by (simp add: createTable_schema init_schema_twice)
  have one: "has_expected_schema (snd (createTable no_faults s))" if "absent_or_legacy s"
    using init_schema_expected [OF that]
    by (simp add: has_expected_schema_iff createTable_schema)
  have two: "has_expected_schema (snd (createTable no_faults (snd (createTable no_faults s))))"
    if "absent_or_legacy s"
    using one [OF that] by (simp add: has_expected_schema_iff twice)
  show ?thesis
    using twice [of flt] one two
    by (simp add: createTable_returns createTable_no_duplicate_columns)
qed

text \<open>
  The initializer only looks for the timestamp column: a table that starts with the columns
  id and name alone gets created_at and its index, and never an email column or its index.
\<close>

theorem createTable_idempotent_counterexample:
  "\<not> has_expected_schema (snd (createTable no_faults partial_store))
   \<and> \<not> has_expected_schema
        (snd (createTable no_faults (snd (createTable no_faults partial_store))))"
proof -
  have one: "\<not> has_expected_schema (snd (createTable no_faults partial_store))"
    by (simp add: has_expected_schema_iff partial_store_initialised expected_schema_def once_def
        column_names_def created_at_column_def)
  have "schema_state (snd (createTable no_faults (snd (createTable no_faults partial_store)))) =
      schema_state (snd (createTable no_faults partial_store))"
    by (simp add: createTable_schema init_schema_twice)
  with one show ?thesis
    by (simp add: has_expected_schema_iff)
qed

text \<open>The empty store and a table of the first schema with one row are such starts.\<close>

theorem createTable_idempotent_witness:
  "(schema_state (snd (createTable no_faults (snd (createTable no_faults empty_store)))) =
      schema_state (snd (createTable no_faults empty_store))
    \<and> fst (createTable no_faults empty_store) = None
    \<and> fst (createTable no_faults (snd (createTable no_faults empty_store))) = None
    \<and> no_duplicate_columns (snd (createTable no_faults empty_store))
    \<and> has_expected_schema (snd (createTable no_faults empty_store))
    \<and> has_expected_schema (snd (createTable no_faults (snd (createTable no_faults empty_store)))))
   \<and> (schema_state (snd (createTable no_faults (snd (createTable no_faults legacy_store)))) =
      schema_state (snd (createTable no_faults legacy_store))
    \<and> fst (createTable no_faults legacy_store) = None
    \<and> fst (createTable no_faults (snd (createTable no_faults legacy_store))) = None
    \<and> no_duplicate_columns (snd (createTable no_faults legacy_store))
    \<and> has_expected_schema (snd (createTable no_faults legacy_store))
    \<and> has_expected_schema (snd (createTable no_faults (snd (createTable no_faults legacy_store)))))"
proof -
  have e: "absent_or_legacy empty_store" "no_duplicate_columns empty_store"
    by (simp_all add: absent_or_legacy_def no_duplicate_columns_def empty_store_def)
  have l: "absent_or_legacy legacy_store" "no_duplicate_columns legacy_store"
    by (simp_all add: absent_or_legacy_def no_duplicate_columns_def legacy_store_def
        legacy_columns_def column_names_def once_def named_on_def)
  show ?thesis
    using e l createTable_idempotent [of no_faults empty_store]
      createTable_idempotent [of no_faults legacy_store]
    by simp
qed

section \<open>Starting and listening\<close>

lemma testConnection_returns: "fst (testConnection flt s) = None"
  by (simp add: testConnection_def split: prod.split sum.split)

lemma startServer_listens:
  "snd (startServer flt s env_port outcomes) = listen_actions (PORT env_port) outcomes"
proof -
  obtain s1 where a: "testConnection flt s = (None, s1)"
    using testConnection_returns [of flt s] by (metis prod.collapse)
  obtain s2 where b: "createTable flt s1 = (None, s2)"
    using createTable_returns [of flt s1] by (metis prod.collapse)
  show ?thesis
    using a b by (simp add: startServer_def)
qed

lemma retry_port_default:
  "snd (startServer flt s None [EADDRINUSE, Listening]) =
     [Listen (PortNumber 3000), Listen (PortNumber 3001)]"
  by (simp add: startServer_listens listen_actions_def PORT_def)

lemma retry_port_string:
  "v \<noteq> [] \<Longrightarrow> snd (startServer flt s (Some v) (EADDRINUSE # outcomes)) =
     Listen (PortString v) # Listen (PortString (v @ ''1'')) # on_error (PortString v) outcomes"
  by (simp add: startServer_listens listen_actions_def PORT_def)

lemma retry_repeats:
  "snd (startServer flt s None [EADDRINUSE, EADDRINUSE, Listening]) =
     [Listen (PortNumber 3000), Listen (PortNumber 3001), Listen (PortNumber 3001)]"
  by (simp add: startServer_listens listen_actions_def PORT_def)

text \<open>
  Claim C7 at the port 4000 taken from the environment, with the first bind failing on an
  address in use: the value of \<^verbatim>\<open>PORT\<close> is the string "4000", \<^verbatim>\<open>PORT + 1\<close> is the string
  "40001", and that is what the second \<^verbatim>\<open>listen\<close> receives.
\<close>

theorem retry_port_from_environment:
  "snd (startServer flt s (Some ''4000'') [EADDRINUSE, Listening]) =
     [Listen (PortString ''4000''), Listen (PortString ''40001'')]"
  by (simp add: startServer_listens listen_actions_def PORT_def)

end
